theory Spec2Isabelle
  imports Complex_Main "HOL-Library.Word" "HOL-Library.Multiset"
begin

section \<open>The tagged allocator of \<^verbatim>\<open>tagged_alloc.h\<close>\<close>

text \<open>
  The header tracks every live allocation in a table of descriptors. This theory embeds
  the table operations of \<^verbatim>\<open>class TaggedAlloc\<close> as functions on an explicit state.

  Conventions of the embedding:
  \<^item> \<^verbatim>\<open>size_t\<close>, \<^verbatim>\<open>uint32_t\<close> and object pointers are 32-bit words: the header targets
    arduino-esp32 and itself casts a pointer to \<^verbatim>\<open>uint32_t\<close>. Arithmetic on them wraps.
  \<^item> The allocation table is the list of descriptors that the backing buffer really
    holds; \<^verbatim>\<open>AllocationTableSize\<close> is a separate variable, as in the source. An access
    at an index beyond the buffer is undefined behaviour in C++ and is the error value
    \<open>OutOfBoundsAccess\<close> here.
  \<^item> Every \<^verbatim>\<open>assert\<close> is a fatal error value naming the assertion.
  \<^item> What \<^verbatim>\<open>malloc\<close>, \<^verbatim>\<open>realloc\<close> and \<^verbatim>\<open>millis\<close> return is an argument of the operation
    that calls them. Fresh memory is not zeroed: its content is an argument too.
  \<^item> One execution context is modelled, so the recursive mutex is always acquired and
    the assertions on \<^verbatim>\<open>xSemaphoreTake\<close> never fail.
\<close>

subsection \<open>Configuration\<close>

record config =
  TAGGED_ALLOC_MIN_TABLE_SIZE :: "32 word"
  TAGGED_ALLOC_INITIAL_TABLE_SIZE :: "32 word"
  TAGGED_ALLOC_TABLE_SHRINK_STEP :: "32 word"
  TAGGED_ALLOC_TABLE_EXPAND_STEP :: "32 word"
  TAGGED_ALLOC_NO_TIME_TRACKING :: bool

text \<open>The values the header gives when none of the macros is predefined.\<close>

definition default_config :: config where
  "default_config =
     \<lparr> TAGGED_ALLOC_MIN_TABLE_SIZE = 32,
       TAGGED_ALLOC_INITIAL_TABLE_SIZE = 64,
       TAGGED_ALLOC_TABLE_SHRINK_STEP = 64,
       TAGGED_ALLOC_TABLE_EXPAND_STEP = 32,
       TAGGED_ALLOC_NO_TIME_TRACKING = False \<rparr>"

subsection \<open>Descriptors\<close>

record TaggedAllocationDescriptor =
  Object :: "32 word"
  Size :: "32 word"
  Tag :: "char \<times> char \<times> char \<times> char"
  Time :: "32 word"

text \<open>
  \<^verbatim>\<open>sizeof(TaggedAllocationDescriptor)\<close> on the 32-bit target: three or four fields of four
  bytes each. Without time tracking the field \<open>Time\<close> does not exist in the source; the
  model keeps it and never reads it then.
\<close>

definition sizeof_TaggedAllocationDescriptor :: "config \<Rightarrow> 32 word" where
  "sizeof_TaggedAllocationDescriptor cfg =
     (if TAGGED_ALLOC_NO_TIME_TRACKING cfg then 12 else 16)"

definition TAGGED_ALLOC_IS_VALID :: "TaggedAllocationDescriptor \<Rightarrow> bool" where
  "TAGGED_ALLOC_IS_VALID t = (Object t \<noteq> 0)"

text \<open>The value of the aggregate \<^verbatim>\<open>{ 0 }\<close>: every field zero.\<close>

definition zero_descriptor :: TaggedAllocationDescriptor where
  "zero_descriptor =
     \<lparr> Object = 0, Size = 0,
       Tag = (CHR 0x00, CHR 0x00, CHR 0x00, CHR 0x00), Time = 0 \<rparr>"

subsection \<open>State and fatal errors\<close>

record TaggedAlloc =
  InitOK :: bool
  AllocationCount :: "32 word"
  AllocationTableSize :: "32 word"
  AllocationTable :: "TaggedAllocationDescriptor list"

datatype fatal =
    AssertMutexCreated
  | AssertTableAllocated
  | AssertStartInTable
  | AssertResizeEntryCount
  | AssertTableReallocated
  | AssertSlotAfterResize
  | AssertObjectAllocated
  | OutOfBoundsAccess
  | NullPointerAccess

text \<open>The static initialisers of the class variables.\<close>

definition static_init :: "config \<Rightarrow> TaggedAlloc" where
  "static_init cfg =
     \<lparr> InitOK = False, AllocationCount = 0,
       AllocationTableSize = TAGGED_ALLOC_INITIAL_TABLE_SIZE cfg,
       AllocationTable = [] \<rparr>"

text \<open>
  A buffer of \<open>bytes\<close> bytes holds \<open>bytes div sizeof\<close> whole descriptors. \<open>fill_buffer\<close> is
  the buffer \<^verbatim>\<open>realloc\<close> hands back: the old descriptors that fit, then whatever the
  heap held (\<open>heap i\<close> at entry \<open>i\<close>). With no old descriptors it is a \<^verbatim>\<open>malloc\<close>.
\<close>

definition buffer_entries :: "config \<Rightarrow> 32 word \<Rightarrow> nat" where
  "buffer_entries cfg bytes = unat bytes div unat (sizeof_TaggedAllocationDescriptor cfg)"

definition fill_buffer ::
  "TaggedAllocationDescriptor list \<Rightarrow> nat \<Rightarrow> (nat \<Rightarrow> TaggedAllocationDescriptor)
     \<Rightarrow> TaggedAllocationDescriptor list" where
  "fill_buffer old n heap = map (\<lambda>i. if i < length old then old ! i else heap i) [0..<n]"

text \<open>
  \<^verbatim>\<open>Init\<close>. \<open>mutex_ok\<close> says whether the mutex was created; \<open>table_mem\<close> is \<open>None\<close> when
  \<^verbatim>\<open>malloc\<close> returns null and the content of the fresh memory otherwise.
\<close>

definition Init ::
  "config \<Rightarrow> bool \<Rightarrow> (nat \<Rightarrow> TaggedAllocationDescriptor) option \<Rightarrow> TaggedAlloc
     \<Rightarrow> fatal + TaggedAlloc" where
  "Init cfg mutex_ok table_mem s =
     (if InitOK s then Inr s
      else if \<not> mutex_ok then Inl AssertMutexCreated
      else
        (let allocationBufferSize =
               AllocationTableSize s * sizeof_TaggedAllocationDescriptor cfg
         in case table_mem of
              None \<Rightarrow> Inl AssertTableAllocated
            | Some heap \<Rightarrow>
                Inr (s\<lparr> AllocationTable :=
                          fill_buffer [] (buffer_entries cfg allocationBufferSize) heap,
                        InitOK := True \<rparr>)))"

subsection \<open>Queries\<close>

definition GetAllocationCount :: "TaggedAlloc \<Rightarrow> 32 word" where
  "GetAllocationCount s = AllocationCount s"

text \<open>The loop of \<^verbatim>\<open>GetTotalSize\<close>, from \<open>index\<close> with the running \<open>totalSize\<close>.\<close>

function GetTotalSize_loop :: "TaggedAlloc \<Rightarrow> nat \<Rightarrow> 32 word \<Rightarrow> fatal + 32 word" where
  "GetTotalSize_loop s index totalSize =
     (if index < unat (AllocationTableSize s) then
        (if index < length (AllocationTable s) then
           (if TAGGED_ALLOC_IS_VALID (AllocationTable s ! index)
            then GetTotalSize_loop s (Suc index) (totalSize + Size (AllocationTable s ! index))
            else GetTotalSize_loop s (Suc index) totalSize)
         else Inl OutOfBoundsAccess)
      else Inr totalSize)"
  by pat_completeness auto
termination
  by (relation "measure (\<lambda>(s, index, totalSize). unat (AllocationTableSize s) - index)") auto

definition GetTotalSize :: "TaggedAlloc \<Rightarrow> fatal + 32 word" where
  "GetTotalSize s = GetTotalSize_loop s 0 0"

subsection \<open>Searching the table\<close>

text \<open>
  \<^verbatim>\<open>GetFirstEmptySlot\<close>: \<open>Some n\<close> when it returns true after storing \<open>n\<close> through its
  pointer argument, \<open>None\<close> when it returns false and stores nothing.
\<close>

function GetFirstEmptySlot_loop :: "TaggedAlloc \<Rightarrow> nat \<Rightarrow> fatal + nat option" where
  "GetFirstEmptySlot_loop s n =
     (if n < unat (AllocationTableSize s) then
        (if n < length (AllocationTable s) then
           (if \<not> TAGGED_ALLOC_IS_VALID (AllocationTable s ! n) then Inr (Some n)
            else GetFirstEmptySlot_loop s (Suc n))
         else Inl OutOfBoundsAccess)
      else Inr None)"
  by pat_completeness auto
termination
  by (relation "measure (\<lambda>(s, n). unat (AllocationTableSize s) - n)") auto

definition GetFirstEmptySlot :: "TaggedAlloc \<Rightarrow> fatal + nat option" where
  "GetFirstEmptySlot s = GetFirstEmptySlot_loop s 0"

text \<open>
  The loop of \<^verbatim>\<open>IsAllocationTableFragmented\<close>. The loop counter \<open>index\<close> starts at \<open>start\<close>,
  while the pointer \<^verbatim>\<open>entry\<close> starts at the first descriptor of the table and advances
  with each iteration that does not break: at counter \<open>index\<close> it points to the
  descriptor at \<open>index - start\<close>. The result is (fragmented, *firstEmptyIndex,
  *firstValidIndex); the two indices keep their values on entry unless the loop stores
  to them.
\<close>

function IsAllocationTableFragmented_loop ::
  "TaggedAlloc \<Rightarrow> nat \<Rightarrow> nat \<Rightarrow> bool \<Rightarrow> nat \<Rightarrow> nat \<Rightarrow> fatal + (bool \<times> nat \<times> nat)" where
  "IsAllocationTableFragmented_loop s start index reachedInvalidEntry firstEmptyIndex firstValidIndex =
     (if index < unat (AllocationTableSize s) then
        (if index - start < length (AllocationTable s) then
           (let validEntry = TAGGED_ALLOC_IS_VALID (AllocationTable s ! (index - start)) in
            if validEntry \<and> reachedInvalidEntry then Inr (True, firstEmptyIndex, index)
            else if \<not> validEntry then
              (if \<not> reachedInvalidEntry
               then IsAllocationTableFragmented_loop s start (Suc index) True index firstValidIndex
               else IsAllocationTableFragmented_loop s start (Suc index) reachedInvalidEntry
                      firstEmptyIndex firstValidIndex)
            else IsAllocationTableFragmented_loop s start (Suc index) reachedInvalidEntry
                   firstEmptyIndex firstValidIndex)
         else Inl OutOfBoundsAccess)
      else Inr (False, firstEmptyIndex, firstValidIndex))"
  by pat_completeness auto
termination
  by (relation "measure (\<lambda>(s, start, index, r, e, v). unat (AllocationTableSize s) - index)")
     auto

definition IsAllocationTableFragmented ::
  "TaggedAlloc \<Rightarrow> nat \<Rightarrow> nat \<Rightarrow> nat \<Rightarrow> fatal + (bool \<times> nat \<times> nat)" where
  "IsAllocationTableFragmented s start firstEmptyIndex firstValidIndex =
     (if \<not> start < unat (AllocationTableSize s) then Inl AssertStartInTable
      else IsAllocationTableFragmented_loop s start start False firstEmptyIndex firstValidIndex)"

subsection \<open>Defragmenting and resizing\<close>

text \<open>
  The \<^verbatim>\<open>while\<close> loop of \<^verbatim>\<open>DefragAllocationTable\<close>. The variable \<^verbatim>\<open>firstEmptyIndex\<close> is
  both the \<open>start\<close> argument of the scan and the place the scan stores to. The loop has
  no bound of its own, so it is a partial function: \<open>None\<close> is a loop that never ends.
\<close>

partial_function (option) DefragAllocationTable_loop ::
  "TaggedAlloc \<Rightarrow> nat \<Rightarrow> nat \<Rightarrow> (fatal + TaggedAlloc) option" where
  "DefragAllocationTable_loop s firstEmptyIndex firstValidIndex =
     (case IsAllocationTableFragmented s firstEmptyIndex firstEmptyIndex firstValidIndex of
        Inl e \<Rightarrow> Some (Inl e)
      | Inr (fragmented, firstEmptyIndex', firstValidIndex') \<Rightarrow>
          if fragmented then
            (if firstEmptyIndex' < length (AllocationTable s) \<and>
                firstValidIndex' < length (AllocationTable s)
             then DefragAllocationTable_loop
                    (s\<lparr> AllocationTable :=
                          ((AllocationTable s)
                             [firstEmptyIndex' := AllocationTable s ! firstValidIndex'])
                             [firstValidIndex' := zero_descriptor] \<rparr>)
                    firstEmptyIndex' firstValidIndex'
             else Some (Inl OutOfBoundsAccess))
          else Some (Inr s))"

declare DefragAllocationTable_loop.simps [code]

definition DefragAllocationTable :: "TaggedAlloc \<Rightarrow> (fatal + TaggedAlloc) option" where
  "DefragAllocationTable s = DefragAllocationTable_loop s 0 0"

text \<open>
  \<^verbatim>\<open>ResizeAllocationTable\<close>. \<open>mem\<close> is what \<^verbatim>\<open>realloc\<close> does if it is called: \<open>None\<close> when
  it returns null, otherwise the content of the memory beyond the old buffer.
\<close>

definition ResizeAllocationTable ::
  "config \<Rightarrow> (nat \<Rightarrow> TaggedAllocationDescriptor) option \<Rightarrow> 32 word \<Rightarrow> TaggedAlloc
     \<Rightarrow> (fatal + TaggedAlloc) option" where
  "ResizeAllocationTable cfg mem newEntryCount s =
     (if \<not> newEntryCount < TAGGED_ALLOC_MIN_TABLE_SIZE cfg then Some (Inl AssertResizeEntryCount)
      else if newEntryCount \<noteq> AllocationTableSize s then
        (case (if newEntryCount < AllocationTableSize s then DefragAllocationTable s
               else Some (Inr s)) of
           None \<Rightarrow> None
         | Some (Inl e) \<Rightarrow> Some (Inl e)
         | Some (Inr s1) \<Rightarrow>
             (let newSize = newEntryCount * sizeof_TaggedAllocationDescriptor cfg in
              case mem of
                None \<Rightarrow> Some (Inl AssertTableReallocated)
              | Some heap \<Rightarrow>
                  Some (Inr (s1\<lparr> AllocationTable :=
                                   fill_buffer (AllocationTable s1)
                                     (buffer_entries cfg newSize) heap,
                                 AllocationTableSize := newSize \<rparr>))))
      else Some (Inr s))"

subsection \<open>Inserting and removing\<close>

definition InsertAllocation ::
  "config \<Rightarrow> (nat \<Rightarrow> TaggedAllocationDescriptor) option \<Rightarrow> TaggedAllocationDescriptor
     \<Rightarrow> TaggedAlloc \<Rightarrow> (fatal + TaggedAlloc) option" where
  "InsertAllocation cfg mem ta s =
     (case GetFirstEmptySlot s of
        Inl e \<Rightarrow> Some (Inl e)
      | Inr found \<Rightarrow>
          (case (if found = None
                 then ResizeAllocationTable cfg mem
                        (AllocationTableSize s + TAGGED_ALLOC_TABLE_EXPAND_STEP cfg) s
                 else Some (Inr s)) of
             None \<Rightarrow> None
           | Some (Inl e) \<Rightarrow> Some (Inl e)
           | Some (Inr s1) \<Rightarrow>
               (case GetFirstEmptySlot s1 of
                  Inl e \<Rightarrow> Some (Inl e)
                | Inr None \<Rightarrow> Some (Inl AssertSlotAfterResize)
                | Inr (Some insertIndex) \<Rightarrow>
                    Some (Inr (s1\<lparr> AllocationTable := (AllocationTable s1)[insertIndex := ta],
                                   AllocationCount := AllocationCount s1 + 1 \<rparr>)))))"

text \<open>The \<^verbatim>\<open>for\<close> loop of \<^verbatim>\<open>RemoveAllocation\<close>, from index \<open>n\<close>.\<close>

function RemoveAllocation_loop :: "TaggedAlloc \<Rightarrow> 32 word \<Rightarrow> nat \<Rightarrow> fatal + TaggedAlloc" where
  "RemoveAllocation_loop s objectPointer n =
     (if n < unat (AllocationTableSize s) then
        (if n < length (AllocationTable s) then
           (if TAGGED_ALLOC_IS_VALID (AllocationTable s ! n) then
              (if Object (AllocationTable s ! n) = objectPointer
               then Inr (s\<lparr> AllocationTable := (AllocationTable s)[n := zero_descriptor] \<rparr>)
               else RemoveAllocation_loop s objectPointer (Suc n))
            else RemoveAllocation_loop s objectPointer (Suc n))
         else Inl OutOfBoundsAccess)
      else Inr s)"
  by pat_completeness auto
termination
  by (relation "measure (\<lambda>(s, p, n). unat (AllocationTableSize s) - n)") auto

definition RemoveAllocation ::
  "config \<Rightarrow> (nat \<Rightarrow> TaggedAllocationDescriptor) option \<Rightarrow> 32 word \<Rightarrow> TaggedAlloc
     \<Rightarrow> (fatal + TaggedAlloc) option" where
  "RemoveAllocation cfg mem objectPointer s =
     (case RemoveAllocation_loop s objectPointer 0 of
        Inl e \<Rightarrow> Some (Inl e)
      | Inr s1 \<Rightarrow>
          (let s2 = s1\<lparr> AllocationCount := AllocationCount s1 - 1 \<rparr> in
           if AllocationCount s2 > TAGGED_ALLOC_MIN_TABLE_SIZE cfg \<and>
              AllocationCount s2 + TAGGED_ALLOC_TABLE_SHRINK_STEP cfg < AllocationTableSize s2
           then
             (let shrunkSize = AllocationTableSize s2 - TAGGED_ALLOC_TABLE_SHRINK_STEP cfg in
              ResizeAllocationTable cfg mem shrunkSize s2)
           else Some (Inr s2)))"

subsection \<open>The public allocation functions\<close>

text \<open>
  \<^verbatim>\<open>AllocateInternal<T>\<close>: \<open>sizeof_T\<close> is \<^verbatim>\<open>sizeof(T)\<close>, \<open>cnt\<close> the argument \<^verbatim>\<open>count\<close>, \<open>now\<close> the value of \<^verbatim>\<open>millis()\<close> and
  \<open>object\<close> the pointer \<^verbatim>\<open>malloc\<close> returns (null is 0). The function returns \<open>object\<close>,
  which the caller of the model already has.
\<close>

definition AllocateInternal ::
  "config \<Rightarrow> (nat \<Rightarrow> TaggedAllocationDescriptor) option \<Rightarrow> 32 word \<Rightarrow> 32 word
     \<Rightarrow> char \<times> char \<times> char \<times> char \<Rightarrow> 32 word \<Rightarrow> 32 word \<Rightarrow> TaggedAlloc
     \<Rightarrow> (fatal + TaggedAlloc) option" where
  "AllocateInternal cfg mem sizeof_T cnt tag now object s =
     (let ta = \<lparr> Object = object, Size = sizeof_T * cnt, Tag = tag,
                 Time = (if TAGGED_ALLOC_NO_TIME_TRACKING cfg then 0 else now) \<rparr>
      in if object = 0 then Some (Inl AssertObjectAllocated)
         else InsertAllocation cfg mem ta s)"

definition Allocate ::
  "config \<Rightarrow> (nat \<Rightarrow> TaggedAllocationDescriptor) option \<Rightarrow> 32 word
     \<Rightarrow> char \<times> char \<times> char \<times> char \<Rightarrow> 32 word \<Rightarrow> 32 word \<Rightarrow> TaggedAlloc
     \<Rightarrow> (fatal + TaggedAlloc) option" where
  "Allocate cfg mem sizeof_T tag now object s =
     AllocateInternal cfg mem sizeof_T 1 tag now object s"

definition AllocateArray ::
  "config \<Rightarrow> (nat \<Rightarrow> TaggedAllocationDescriptor) option \<Rightarrow> 32 word \<Rightarrow> 32 word
     \<Rightarrow> char \<times> char \<times> char \<times> char \<Rightarrow> 32 word \<Rightarrow> 32 word \<Rightarrow> TaggedAlloc
     \<Rightarrow> (fatal + TaggedAlloc) option" where
  "AllocateArray cfg mem sizeof_T cnt tag now object s =
     AllocateInternal cfg mem sizeof_T cnt tag now object s"

text \<open>\<^verbatim>\<open>Free\<close>: the call of \<^verbatim>\<open>free\<close> after the removal does not touch the table.\<close>

definition Free ::
  "config \<Rightarrow> (nat \<Rightarrow> TaggedAllocationDescriptor) option \<Rightarrow> 32 word \<Rightarrow> TaggedAlloc
     \<Rightarrow> (fatal + TaggedAlloc) option" where
  "Free cfg mem object s = RemoveAllocation cfg mem object s"

subsection \<open>Printing the statistics\<close>

text \<open>
  What \<^verbatim>\<open>PrintStats\<close> sends to \<^verbatim>\<open>Serial\<close>, one value per call: \<^verbatim>\<open>print\<close> and \<^verbatim>\<open>println\<close> of a
  string literal, of a \<^verbatim>\<open>size_t\<close> (decimal), of a \<^verbatim>\<open>double\<close> and of a \<^verbatim>\<open>uint32_t\<close> in
  base \<^verbatim>\<open>HEX\<close>, and \<^verbatim>\<open>write\<close> of a byte buffer. The \<^verbatim>\<open>double\<close> is carried as the real number
  it approximates; neither its rounding nor the digits printed are modelled.
\<close>

datatype serial =
    Serial_print string
  | Serial_println string
  | Serial_print_size "32 word"
  | Serial_println_size "32 word"
  | Serial_write "char list"
  | Serial_print_double real
  | Serial_print_HEX "32 word"

text \<open>The body of the \<^verbatim>\<open>if\<close> in the printing loop: the calls for one valid descriptor.\<close>

definition print_allocation :: "config \<Rightarrow> TaggedAllocationDescriptor \<Rightarrow> serial list" where
  "print_allocation cfg alloc =
     [Serial_print ''Tag: '',
      (case Tag alloc of (t0, t1, t2, t3) \<Rightarrow> Serial_write [t0, t1, t2, t3]),
      Serial_print '', Size: '',
      Serial_print_size (Size alloc)] @
     (if TAGGED_ALLOC_NO_TIME_TRACKING cfg then []
      else [Serial_print '', Time: '',
            Serial_print_double (real (unat (Time alloc)) / 1000)]) @
     [Serial_print '', Pointer: 0x'',
      Serial_print_HEX (Object alloc),
      Serial_println []]"

text \<open>
  The printing loop over the copy of the table. Its bound is the local \<^verbatim>\<open>tableSize\<close>,
  which \<^verbatim>\<open>PrintStats\<close> sets to the size of the table in bytes. The result is the output
  so far and, when the loop reads beyond the copy, the error.
\<close>

function PrintStats_loop ::
  "config \<Rightarrow> TaggedAllocationDescriptor list \<Rightarrow> nat \<Rightarrow> nat \<Rightarrow> serial list
     \<Rightarrow> serial list \<times> fatal option" where
  "PrintStats_loop cfg allocationTableCopy tableSize index out =
     (if index < tableSize then
        (if index < length allocationTableCopy then
           (let alloc = allocationTableCopy ! index in
            if TAGGED_ALLOC_IS_VALID alloc
            then PrintStats_loop cfg allocationTableCopy tableSize (Suc index)
                   (out @ print_allocation cfg alloc)
            else PrintStats_loop cfg allocationTableCopy tableSize (Suc index) out)
         else (out, Some OutOfBoundsAccess))
      else (out, None))"
  by pat_completeness auto
termination
  by (relation "measure (\<lambda>(cfg, c, tableSize, index, out). tableSize - index)") auto

text \<open>
  \<^verbatim>\<open>PrintStats\<close>. \<open>copy_ok\<close> says whether the \<^verbatim>\<open>malloc\<close> of the copy succeeded; the source
  does not check it before \<^verbatim>\<open>memcpy\<close> writes through the pointer. \<^verbatim>\<open>memcpy\<close> reads
  \<^verbatim>\<open>tableSize\<close> bytes of the table, so the copy holds the descriptors that fit in them.
\<close>

definition PrintStats :: "config \<Rightarrow> bool \<Rightarrow> TaggedAlloc \<Rightarrow> serial list \<times> fatal option" where
  "PrintStats cfg copy_ok s =
     (let out0 = [Serial_println ''*** TAGGED ALLOCATION STATS ***'',
                  Serial_println ''> Capturing allocation table...''];
          tableSize = AllocationTableSize s * sizeof_TaggedAllocationDescriptor cfg;
          allocCount = AllocationCount s
      in if tableSize \<noteq> 0 \<and> \<not> copy_ok then (out0, Some NullPointerAccess)
         else if length (AllocationTable s) * unat (sizeof_TaggedAllocationDescriptor cfg)
                   < unat tableSize
         then (out0, Some OutOfBoundsAccess)
         else
           (let allocationTableCopy = take (buffer_entries cfg tableSize) (AllocationTable s);
                out1 = out0 @
                  [Serial_print ''Allocation count: '',
                   Serial_println_size allocCount,
                   Serial_print ''Table size: '',
                   Serial_print_size allocCount,
                   Serial_print '' ('',
                   Serial_print_size (allocCount * sizeof_TaggedAllocationDescriptor cfg),
                   Serial_println '' bytes)'']
            in PrintStats_loop cfg allocationTableCopy (unat tableSize) 0 out1))"

subsection \<open>Sequences of calls\<close>

text \<open>
  A call of the public interface together with what the platform returned during it:
  the outcome of \<^verbatim>\<open>realloc\<close> should the table be resized, \<^verbatim>\<open>sizeof(T)\<close>, the element
  count, the tag, the value of \<^verbatim>\<open>millis()\<close> and the pointer from \<^verbatim>\<open>malloc\<close>.
\<close>

datatype call =
    Call_Allocate "(nat \<Rightarrow> TaggedAllocationDescriptor) option" "32 word"
      "char \<times> char \<times> char \<times> char" "32 word" "32 word"
  | Call_AllocateArray "(nat \<Rightarrow> TaggedAllocationDescriptor) option" "32 word" "32 word"
      "char \<times> char \<times> char \<times> char" "32 word" "32 word"
  | Call_Free "(nat \<Rightarrow> TaggedAllocationDescriptor) option" "32 word"

fun do_call :: "config \<Rightarrow> call \<Rightarrow> TaggedAlloc \<Rightarrow> (fatal + TaggedAlloc) option" where
  "do_call cfg (Call_Allocate mem sizeof_T tag now object) s =
     Allocate cfg mem sizeof_T tag now object s"
| "do_call cfg (Call_AllocateArray mem sizeof_T cnt tag now object) s =
     AllocateArray cfg mem sizeof_T cnt tag now object s"
| "do_call cfg (Call_Free mem object) s = Free cfg mem object s"

text \<open>A fatal error ends the program, so it ends the sequence.\<close>

fun run :: "config \<Rightarrow> call list \<Rightarrow> TaggedAlloc \<Rightarrow> (fatal + TaggedAlloc) option" where
  "run cfg [] s = Some (Inr s)"
| "run cfg (c # cs) s =
     (case do_call cfg c s of
        None \<Rightarrow> None
      | Some (Inl e) \<Rightarrow> Some (Inl e)
      | Some (Inr s') \<Rightarrow> run cfg cs s')"

text \<open>
  The pointers handed out and not yet freed after a sequence of calls, given those
  outstanding before it; and the sequences in which \<^verbatim>\<open>malloc\<close> never returns a pointer
  that is still outstanding and every \<^verbatim>\<open>Free\<close> is on an outstanding pointer.
\<close>

fun outstanding :: "call list \<Rightarrow> 32 word list \<Rightarrow> 32 word list" where
  "outstanding [] live = live"
| "outstanding (Call_Allocate mem sizeof_T tag now object # cs) live =
     outstanding cs (object # live)"
| "outstanding (Call_AllocateArray mem sizeof_T cnt tag now object # cs) live =
     outstanding cs (object # live)"
| "outstanding (Call_Free mem object # cs) live = outstanding cs (remove1 object live)"

fun matched :: "call list \<Rightarrow> 32 word list \<Rightarrow> bool" where
  "matched [] live = True"
| "matched (Call_Allocate mem sizeof_T tag now object # cs) live =
     (object \<notin> set live \<and> matched cs (object # live))"
| "matched (Call_AllocateArray mem sizeof_T cnt tag now object # cs) live =
     (object \<notin> set live \<and> matched cs (object # live))"
| "matched (Call_Free mem object # cs) live =
     (object \<in> set live \<and> matched cs (remove1 object live))"

subsection \<open>Notions used to state the properties\<close>

text \<open>
  The valid records of the table: the valid descriptors among its first
  \<^verbatim>\<open>AllocationTableSize\<close> slots, in slot order.
\<close>

definition valid_records :: "TaggedAlloc \<Rightarrow> TaggedAllocationDescriptor list" where
  "valid_records s =
     filter TAGGED_ALLOC_IS_VALID (take (unat (AllocationTableSize s)) (AllocationTable s))"

text \<open>
  The report line as the specification words it, for comparison with
  \<open>print_allocation\<close>: the time field is the time elapsed since the record was created,
  in seconds, at the moment \<open>now\<close> (in milliseconds) of the dump.
\<close>

definition spec_report_line ::
  "config \<Rightarrow> 32 word \<Rightarrow> TaggedAllocationDescriptor \<Rightarrow> serial list" where
  "spec_report_line cfg now alloc =
     [Serial_print ''Tag: '',
      (case Tag alloc of (t0, t1, t2, t3) \<Rightarrow> Serial_write [t0, t1, t2, t3]),
      Serial_print '', Size: '',
      Serial_print_size (Size alloc)] @
     (if TAGGED_ALLOC_NO_TIME_TRACKING cfg then []
      else [Serial_print '', Time: '',
            Serial_print_double (real (unat (now - Time alloc)) / 1000)]) @
     [Serial_print '', Pointer: 0x'',
      Serial_print_HEX (Object alloc),
      Serial_println []]"

subsection \<open>Example states\<close>

definition example_descriptor :: "32 word \<Rightarrow> TaggedAllocationDescriptor" where
  "example_descriptor a =
     \<lparr> Object = a, Size = 4, Tag = (CHR ''A'', CHR ''A'', CHR ''A'', CHR ''A''), Time = 0 \<rparr>"

text \<open>The table of the default configuration with all 64 slots in use.\<close>

definition full_table :: TaggedAlloc where
  "full_table =
     \<lparr> InitOK = True, AllocationCount = 64, AllocationTableSize = 64,
       AllocationTable = map (\<lambda>i. example_descriptor (of_nat (Suc i))) [0..<64] \<rparr>"

text \<open>The default table after the initialisation found the memory zeroed.\<close>

definition empty_table :: TaggedAlloc where
  "empty_table =
     \<lparr> InitOK = True, AllocationCount = 0, AllocationTableSize = 64,
       AllocationTable = replicate 64 zero_descriptor \<rparr>"

text \<open>
  Four allocations into the empty default table, then a \<^verbatim>\<open>Free\<close> of the second: three
  records, with a hole at slot 1.
\<close>

definition fragmented_table :: TaggedAlloc where
  "fragmented_table =
     \<lparr> InitOK = True, AllocationCount = 3, AllocationTableSize = 64,
       AllocationTable =
         [example_descriptor 0x1000, zero_descriptor,
          example_descriptor 0x3000, example_descriptor 0x4000]
         @ replicate 60 zero_descriptor \<rparr>"

text \<open>A table of 96 entries holding 21 records (initial table size 96).\<close>

definition config_96 :: config where
  "config_96 = default_config \<lparr> TAGGED_ALLOC_INITIAL_TABLE_SIZE := 96 \<rparr>"

definition table_96 :: TaggedAlloc where
  "table_96 =
     \<lparr> InitOK = True, AllocationCount = 21, AllocationTableSize = 96,
       AllocationTable =
         map (\<lambda>i. example_descriptor (of_nat (Suc i))) [0..<21]
         @ replicate 75 zero_descriptor \<rparr>"

text \<open>A table of 128 entries holding 40 records (initial table size 128).\<close>

definition config_128 :: config where
  "config_128 = default_config \<lparr> TAGGED_ALLOC_INITIAL_TABLE_SIZE := 128 \<rparr>"

definition table_128 :: TaggedAlloc where
  "table_128 =
     \<lparr> InitOK = True, AllocationCount = 40, AllocationTableSize = 128,
       AllocationTable =
         map (\<lambda>i. example_descriptor (of_nat (Suc i))) [0..<40]
         @ replicate 88 zero_descriptor \<rparr>"

text \<open>Four slots, two of them holding the same pointer.\<close>

definition duplicate_table :: TaggedAlloc where
  "duplicate_table =
     \<lparr> InitOK = True, AllocationCount = 3, AllocationTableSize = 4,
       AllocationTable =
         [example_descriptor 0x2000, example_descriptor 0x1000,
          example_descriptor 0x1000, zero_descriptor] \<rparr>"

text \<open>Two records, tagged TAGA (16 bytes) and TAGB (32 bytes), in the default table.\<close>

definition record_TAGA :: TaggedAllocationDescriptor where
  "record_TAGA =
     \<lparr> Object = 0x3FFB1000, Size = 16,
       Tag = (CHR ''T'', CHR ''A'', CHR ''G'', CHR ''A''), Time = 5000 \<rparr>"

definition record_TAGB :: TaggedAllocationDescriptor where
  "record_TAGB =
     \<lparr> Object = 0x3FFB2000, Size = 32,
       Tag = (CHR ''T'', CHR ''A'', CHR ''G'', CHR ''B''), Time = 5001 \<rparr>"

definition two_records_table :: TaggedAlloc where
  "two_records_table =
     \<lparr> InitOK = True, AllocationCount = 2, AllocationTableSize = 64,
       AllocationTable = [record_TAGA, record_TAGB] @ replicate 62 zero_descriptor \<rparr>"

text \<open>
  Three calls on the empty default table: an \<^verbatim>\<open>Allocate\<close> of a 4-byte object, an
  \<^verbatim>\<open>AllocateArray\<close> of eight of them, and the \<^verbatim>\<open>Free\<close> of the first; and the state they
  leave.
\<close>

definition example_calls :: "call list" where
  "example_calls =
     [Call_Allocate None 4 (CHR ''A'', CHR ''A'', CHR ''A'', CHR ''A'') 100 0x1000,
      Call_AllocateArray None 4 8 (CHR ''B'', CHR ''B'', CHR ''B'', CHR ''B'') 200 0x2000,
      Call_Free None 0x1000]"

definition example_final :: TaggedAlloc where
  "example_final =
     \<lparr> InitOK = True, AllocationCount = 1, AllocationTableSize = 64,
       AllocationTable =
         [zero_descriptor,
          \<lparr> Object = 0x2000, Size = 32,
            Tag = (CHR ''B'', CHR ''B'', CHR ''B'', CHR ''B''), Time = 200 \<rparr>]
         @ replicate 62 zero_descriptor \<rparr>"

section \<open>Properties\<close>

subsection \<open>Unfolding the loops\<close>

text \<open>
  Each loop equation mentions the loop on both sides, so none of them is a rewrite
  rule of the simplifier: the proofs unfold a loop one iteration at a time.
\<close>

declare GetTotalSize_loop.simps [simp del]
declare GetFirstEmptySlot_loop.simps [simp del]
declare IsAllocationTableFragmented_loop.simps [simp del]
declare RemoveAllocation_loop.simps [simp del]
declare PrintStats_loop.simps [simp del]

subsection \<open>The removal scan\<close>

text \<open>
  From index \<open>n\<close> on, the scan either finds no valid descriptor with the given
  pointer and leaves the state as it is, or clears the first such descriptor and
  nothing else. It never reads beyond the buffer when the buffer holds at least
  \<^verbatim>\<open>AllocationTableSize\<close> descriptors.
\<close>

lemma RemoveAllocation_loop_from:
  "unat (AllocationTableSize s) \<le> length (AllocationTable s) \<Longrightarrow>
   \<exists>r. RemoveAllocation_loop s p n = Inr r \<and>
     ((r = s \<and> (\<forall>k. n \<le> k \<and> k < unat (AllocationTableSize s) \<longrightarrow>
                  \<not> (TAGGED_ALLOC_IS_VALID (AllocationTable s ! k) \<and> Object (AllocationTable s ! k) = p)))
      \<or> (\<exists>i. n \<le> i \<and> i < unat (AllocationTableSize s) \<and>
             TAGGED_ALLOC_IS_VALID (AllocationTable s ! i) \<and> Object (AllocationTable s ! i) = p \<and>
             (\<forall>j. n \<le> j \<and> j < i \<longrightarrow>
                  \<not> (TAGGED_ALLOC_IS_VALID (AllocationTable s ! j) \<and> Object (AllocationTable s ! j) = p)) \<and>
             r = s\<lparr> AllocationTable := (AllocationTable s)[i := zero_descriptor] \<rparr>))"
proof (induction s p n rule: RemoveAllocation_loop.induct)
  case (1 s p n)
  let ?m = "\<lambda>k. TAGGED_ALLOC_IS_VALID (AllocationTable s ! k) \<and> Object (AllocationTable s ! k) = p"
  show ?case
  proof (cases "n < unat (AllocationTableSize s)")
    case False
    then show ?thesis
      by (subst RemoveAllocation_loop.simps) auto
  next
    case inb: True
    with "1.prems" have len: "n < length (AllocationTable s)" by simp
    show ?thesis
    proof (cases "?m n")
      case True
      then have "RemoveAllocation_loop s p n
                 = Inr (s\<lparr> AllocationTable := (AllocationTable s)[n := zero_descriptor] \<rparr>)"
        using inb len by (subst RemoveAllocation_loop.simps) auto
      with True inb show ?thesis by auto
    next
      case False
      then have step: "RemoveAllocation_loop s p n = RemoveAllocation_loop s p (Suc n)"
        using inb len by (subst RemoveAllocation_loop.simps) auto
      have ih: "\<exists>r. RemoveAllocation_loop s p (Suc n) = Inr r \<and>
     ((r = s \<and> (\<forall>k. Suc n \<le> k \<and> k < unat (AllocationTableSize s) \<longrightarrow> \<not> ?m k))
      \<or> (\<exists>i. Suc n \<le> i \<and> i < unat (AllocationTableSize s) \<and> ?m i \<and>
             (\<forall>j. Suc n \<le> j \<and> j < i \<longrightarrow> \<not> ?m j) \<and>
             r = s\<lparr> AllocationTable := (AllocationTable s)[i := zero_descriptor] \<rparr>))"
      proof (cases "TAGGED_ALLOC_IS_VALID (AllocationTable s ! n)")
        case True
        with False have "Object (AllocationTable s ! n) \<noteq> p" by simp
        from "1.IH"(1)[OF inb len True this "1.prems"] show ?thesis by simp
      next
        case False
        from "1.IH"(2)[OF inb len False "1.prems"] show ?thesis by simp
      qed
      then obtain r where r: "RemoveAllocation_loop s p (Suc n) = Inr r"
        and d: "(r = s \<and> (\<forall>k. Suc n \<le> k \<and> k < unat (AllocationTableSize s) \<longrightarrow> \<not> ?m k))
      \<or> (\<exists>i. Suc n \<le> i \<and> i < unat (AllocationTableSize s) \<and> ?m i \<and>
             (\<forall>j. Suc n \<le> j \<and> j < i \<longrightarrow> \<not> ?m j) \<and>
             r = s\<lparr> AllocationTable := (AllocationTable s)[i := zero_descriptor] \<rparr>)" by blast
      from d show ?thesis
      proof
        assume a: "r = s \<and> (\<forall>k. Suc n \<le> k \<and> k < unat (AllocationTableSize s) \<longrightarrow> \<not> ?m k)"
        have "\<forall>k. n \<le> k \<and> k < unat (AllocationTableSize s) \<longrightarrow> \<not> ?m k"
        proof (intro allI impI)
          fix k assume "n \<le> k \<and> k < unat (AllocationTableSize s)"
          then have "k = n \<or> (Suc n \<le> k \<and> k < unat (AllocationTableSize s))" by arith
          with a False show "\<not> ?m k" by blast
        qed
        with a r step show ?thesis by simp
      next
        assume "\<exists>i. Suc n \<le> i \<and> i < unat (AllocationTableSize s) \<and> ?m i \<and>
             (\<forall>j. Suc n \<le> j \<and> j < i \<longrightarrow> \<not> ?m j) \<and>
             r = s\<lparr> AllocationTable := (AllocationTable s)[i := zero_descriptor] \<rparr>"
        then obtain i where i: "Suc n \<le> i" "i < unat (AllocationTableSize s)" "?m i"
          "\<forall>j. Suc n \<le> j \<and> j < i \<longrightarrow> \<not> ?m j"
          "r = s\<lparr> AllocationTable := (AllocationTable s)[i := zero_descriptor] \<rparr>" by blast
        have "\<forall>j. n \<le> j \<and> j < i \<longrightarrow> \<not> ?m j"
        proof (intro allI impI)
          fix j assume "n \<le> j \<and> j < i"
          then have "j = n \<or> (Suc n \<le> j \<and> j < i)" by arith
          with i(4) False show "\<not> ?m j" by blast
        qed
        with i r step show ?thesis
          by (intro exI[of _ r]) (auto intro!: exI[of _ i])
      qed
    qed
  qed
qed

lemma RemoveAllocation_loop_fields:
  "RemoveAllocation_loop s p n = Inr r \<Longrightarrow>
   AllocationCount r = AllocationCount s \<and> AllocationTableSize r = AllocationTableSize s \<and>
   length (AllocationTable r) = length (AllocationTable s) \<and> InitOK r = InitOK s"
proof (induction s p n rule: RemoveAllocation_loop.induct)
  case (1 s p n)
  from "1.prems" show ?case
    by (subst (asm) RemoveAllocation_loop.simps) (auto split: if_splits dest: "1.IH")
qed

text \<open>
  C10. For every pointer passed to the removal, the scan clears at most one slot: when
  some valid slot holds the pointer, the slot of lowest index that does is set to the
  zero descriptor and the table is otherwise the same list; when none does, the state
  is unchanged. (The buffer is assumed to hold the \<^verbatim>\<open>AllocationTableSize\<close> slots the scan
  visits.)
\<close>

theorem RemoveAllocation_loop_clears_first_match_only:
  assumes "unat (AllocationTableSize s) \<le> length (AllocationTable s)"
  shows "\<exists>r. RemoveAllocation_loop s objectPointer 0 = Inr r \<and>
     ((r = s \<and>
       (\<forall>k. k < unat (AllocationTableSize s) \<longrightarrow>
            \<not> (TAGGED_ALLOC_IS_VALID (AllocationTable s ! k) \<and>
               Object (AllocationTable s ! k) = objectPointer)))
      \<or> (\<exists>i. i < unat (AllocationTableSize s) \<and>
             TAGGED_ALLOC_IS_VALID (AllocationTable s ! i) \<and>
             Object (AllocationTable s ! i) = objectPointer \<and>
             (\<forall>j. j < i \<longrightarrow>
                  \<not> (TAGGED_ALLOC_IS_VALID (AllocationTable s ! j) \<and>
                     Object (AllocationTable s ! j) = objectPointer)) \<and>
             r = s\<lparr> AllocationTable := (AllocationTable s)[i := zero_descriptor] \<rparr>))"
  using RemoveAllocation_loop_from[OF assms, of objectPointer 0] by simp

theorem RemoveAllocation_loop_clears_first_match_only_witness:
  "unat (AllocationTableSize duplicate_table) \<le> length (AllocationTable duplicate_table) \<and>
   RemoveAllocation_loop duplicate_table 0x1000 0 =
     Inr (duplicate_table\<lparr> AllocationTable :=
            [example_descriptor 0x2000, zero_descriptor,
             example_descriptor 0x1000, zero_descriptor] \<rparr>)"
proof -
  let ?t = "AllocationTable duplicate_table"
  let ?m = "\<lambda>k. TAGGED_ALLOC_IS_VALID (?t ! k) \<and> Object (?t ! k) = 0x1000"
  have h: "unat (AllocationTableSize duplicate_table) \<le> length ?t"
    by (simp add: duplicate_table_def)
  have m0: "\<not> ?m 0" and m1: "?m 1"
    by (simp_all add: duplicate_table_def example_descriptor_def TAGGED_ALLOC_IS_VALID_def)
  from RemoveAllocation_loop_clears_first_match_only[OF h, of "0x1000"]
  obtain r where r: "RemoveAllocation_loop duplicate_table 0x1000 0 = Inr r"
    and d: "(r = duplicate_table \<and> (\<forall>k. k < unat (AllocationTableSize duplicate_table) \<longrightarrow> \<not> ?m k))
      \<or> (\<exists>i. i < unat (AllocationTableSize duplicate_table) \<and> ?m i \<and> (\<forall>j. j < i \<longrightarrow> \<not> ?m j) \<and>
             r = duplicate_table\<lparr> AllocationTable := ?t[i := zero_descriptor] \<rparr>)"
    by (auto simp: conj_assoc)
  have one: "(1::nat) < unat (AllocationTableSize duplicate_table)"
    by (simp add: duplicate_table_def)
  from d one m1 obtain i where i: "?m i" "\<forall>j. j < i \<longrightarrow> \<not> ?m j"
    "r = duplicate_table\<lparr> AllocationTable := ?t[i := zero_descriptor] \<rparr>"
    by blast
  have "i = 1"
  proof (rule ccontr)
    assume "i \<noteq> 1"
    then have "i = 0 \<or> 1 < i" by arith
    with i(1,2) m0 m1 show False by blast
  qed
  with i(3) have "r = duplicate_table\<lparr> AllocationTable :=
            [example_descriptor 0x2000, zero_descriptor,
             example_descriptor 0x1000, zero_descriptor] \<rparr>"
    by (simp add: duplicate_table_def)
  with r h show ?thesis by simp
qed

subsection \<open>What the fragmentation scan, the defragmentation and the resize preserve\<close>

text \<open>
  The scan fails only by reading beyond the buffer or on its assertion about \<open>start\<close>.
  Whenever the defragmentation loop returns, and whenever the resize returns, the
  allocation count is the one before the call.
\<close>

lemma IsAllocationTableFragmented_loop_error:
  "IsAllocationTableFragmented_loop s start index r e v = Inl err \<Longrightarrow> err = OutOfBoundsAccess"
proof (induction s start index r e v rule: IsAllocationTableFragmented_loop.induct)
  case (1 s start index r e v)
  show ?case
  proof (cases "index < unat (AllocationTableSize s) \<and> index - start < length (AllocationTable s)")
    case False
    with "1.prems" show ?thesis
      by (subst (asm) IsAllocationTableFragmented_loop.simps) (simp split: if_splits)
  next
    case True
    then have a: "index < unat (AllocationTableSize s)" and b: "index - start < length (AllocationTable s)"
      by simp_all
    let ?valid = "TAGGED_ALLOC_IS_VALID (AllocationTable s ! (index - start))"
    show ?thesis
    proof (cases ?valid)
      case v: True
      show ?thesis
      proof (cases r)
        case True
        with "1.prems" a b v show ?thesis
          by (subst (asm) IsAllocationTableFragmented_loop.simps) simp
      next
        case False
        with "1.prems" a b v
        have "IsAllocationTableFragmented_loop s start (Suc index) r e v = Inl err"
          by (subst (asm) IsAllocationTableFragmented_loop.simps) simp
        with "1.IH"(3)[OF a b refl] v False show ?thesis by simp
      qed
    next
      case nv: False
      show ?thesis
      proof (cases r)
        case True
        with "1.prems" a b nv
        have "IsAllocationTableFragmented_loop s start (Suc index) r e v = Inl err"
          by (subst (asm) IsAllocationTableFragmented_loop.simps) simp
        with "1.IH"(2)[OF a b refl] nv True show ?thesis by simp
      next
        case False
        with "1.prems" a b nv
        have "IsAllocationTableFragmented_loop s start (Suc index) True index v = Inl err"
          by (subst (asm) IsAllocationTableFragmented_loop.simps) simp
        with "1.IH"(1)[OF a b refl] nv False show ?thesis by simp
      qed
    qed
  qed
qed


lemma IsAllocationTableFragmented_error:
  "IsAllocationTableFragmented s start e v = Inl err \<Longrightarrow>
   err = OutOfBoundsAccess \<or> err = AssertStartInTable"
  by (auto simp: IsAllocationTableFragmented_def split: if_splits
           dest: IsAllocationTableFragmented_loop_error)

lemma DefragAllocationTable_loop_result:
  "DefragAllocationTable_loop s e v = Some res \<Longrightarrow>
   (case res of
      Inl err \<Rightarrow> err = OutOfBoundsAccess \<or> err = AssertStartInTable
    | Inr s' \<Rightarrow> AllocationCount s' = AllocationCount s \<and>
               AllocationTableSize s' = AllocationTableSize s \<and>
               length (AllocationTable s') = length (AllocationTable s) \<and>
               InitOK s' = InitOK s)"
proof (induction s e v res rule: DefragAllocationTable_loop.raw_induct[rotated -1, consumes 1, case_names step])
  case (step loop s e v res)
  show ?case
  proof (cases "IsAllocationTableFragmented s e e v")
    case (Inl err)
    with step(2) show ?thesis
      by (auto dest: IsAllocationTableFragmented_error)
  next
    case (Inr r)
    obtain fragmented e' v' where r: "r = (fragmented, e', v')" by (cases r) auto
    show ?thesis
    proof (cases fragmented)
      case False
      with Inr r step(2) show ?thesis by auto
    next
      case True
      show ?thesis
      proof (cases "e' < length (AllocationTable s) \<and> v' < length (AllocationTable s)")
        case False
        with True Inr r step(2) show ?thesis by auto
      next
        case inb: True
        with True Inr r step(2)
        have "loop (s\<lparr> AllocationTable :=
                          ((AllocationTable s)[e' := AllocationTable s ! v'])
                             [v' := zero_descriptor] \<rparr>) e' v' = Some res"
          by simp
        from step(1)[OF this] show ?thesis
          by (auto split: sum.splits)
      qed
    qed
  qed
qed


lemma DefragAllocationTable_result:
  "DefragAllocationTable s = Some res \<Longrightarrow>
   (case res of
      Inl err \<Rightarrow> err = OutOfBoundsAccess \<or> err = AssertStartInTable
    | Inr s' \<Rightarrow> AllocationCount s' = AllocationCount s \<and>
               AllocationTableSize s' = AllocationTableSize s \<and>
               length (AllocationTable s') = length (AllocationTable s) \<and>
               InitOK s' = InitOK s)"
  unfolding DefragAllocationTable_def by (rule DefragAllocationTable_loop_result)

lemma ResizeAllocationTable_fires:
  "\<not> newEntryCount < TAGGED_ALLOC_MIN_TABLE_SIZE cfg \<Longrightarrow>
   ResizeAllocationTable cfg mem newEntryCount s = Some (Inl AssertResizeEntryCount)"
  by (simp add: ResizeAllocationTable_def)

lemma ResizeAllocationTable_passes:
  assumes lt: "newEntryCount < TAGGED_ALLOC_MIN_TABLE_SIZE cfg"
  shows "ResizeAllocationTable cfg mem newEntryCount s \<noteq> Some (Inl AssertResizeEntryCount)"
proof (cases "newEntryCount < AllocationTableSize s")
  case False
  with lt show ?thesis
    by (cases mem) (simp_all add: ResizeAllocationTable_def Let_def)
next
  case shrink: True
  show ?thesis
  proof (cases "DefragAllocationTable s")
    case None
    with lt shrink show ?thesis by (simp add: ResizeAllocationTable_def)
  next
    case (Some res)
    show ?thesis
    proof (cases res)
      case (Inl err)
      with DefragAllocationTable_result[OF Some] have "err \<noteq> AssertResizeEntryCount" by auto
      with lt shrink Some Inl show ?thesis by (simp add: ResizeAllocationTable_def)
    next
      case (Inr s1)
      with lt shrink Some show ?thesis
        by (cases mem) (simp_all add: ResizeAllocationTable_def Let_def)
    qed
  qed
qed

lemma ResizeAllocationTable_count:
  assumes "ResizeAllocationTable cfg mem newEntryCount s = Some (Inr s')"
  shows "AllocationCount s' = AllocationCount s"
proof (cases "newEntryCount < AllocationTableSize s")
  case False
  with assms show ?thesis
    by (cases mem) (auto simp: ResizeAllocationTable_def Let_def split: if_splits)
next
  case shrink: True
  show ?thesis
  proof (cases "DefragAllocationTable s")
    case None
    with assms shrink show ?thesis by (simp add: ResizeAllocationTable_def split: if_splits)
  next
    case (Some res)
    show ?thesis
    proof (cases res)
      case (Inl err)
      with assms shrink Some show ?thesis by (simp add: ResizeAllocationTable_def split: if_splits)
    next
      case (Inr s1)
      with DefragAllocationTable_result[OF Some] have "AllocationCount s1 = AllocationCount s" by simp
      with assms shrink Some Inr show ?thesis
        by (cases mem) (auto simp: ResizeAllocationTable_def Let_def split: if_splits)
    qed
  qed
qed

subsection \<open>The precondition check of the resize\<close>

text \<open>
  C3. The claim: the fatal assertion of the resize fires exactly when the requested
  size is below the configured minimum table size. The source asserts
  \<^verbatim>\<open>newEntryCount < TAGGED_ALLOC_MIN_TABLE_SIZE\<close>, so the assertion fires exactly when the
  requested size is at or above the minimum, for every configuration, state and
  outcome of \<^verbatim>\<open>realloc\<close>: with the default minimum of 32 a request for 96 entries is
  fatal and a request for 16 entries is not stopped by the check.
\<close>

theorem ResizeAllocationTable_assertion_fires_at_or_above_minimum:
  "(ResizeAllocationTable cfg mem newEntryCount s = Some (Inl AssertResizeEntryCount))
     = (TAGGED_ALLOC_MIN_TABLE_SIZE cfg \<le> newEntryCount) \<and>
   ResizeAllocationTable default_config mem 96 empty_table = Some (Inl AssertResizeEntryCount) \<and>
   ResizeAllocationTable default_config mem 16 empty_table \<noteq> Some (Inl AssertResizeEntryCount)"
proof -
  have general: "(ResizeAllocationTable cfg mem newEntryCount s = Some (Inl AssertResizeEntryCount))
     = (TAGGED_ALLOC_MIN_TABLE_SIZE cfg \<le> newEntryCount)"
    using ResizeAllocationTable_fires[of newEntryCount cfg mem s]
          ResizeAllocationTable_passes[of newEntryCount cfg mem s]
    by (cases "newEntryCount < TAGGED_ALLOC_MIN_TABLE_SIZE cfg") (simp_all add: not_less not_le)
  have at_96: "ResizeAllocationTable default_config mem 96 empty_table
                 = Some (Inl AssertResizeEntryCount)"
    by (rule ResizeAllocationTable_fires) (simp add: default_config_def)
  have at_16: "ResizeAllocationTable default_config mem 16 empty_table
                 \<noteq> Some (Inl AssertResizeEntryCount)"
    by (rule ResizeAllocationTable_passes) (simp add: default_config_def)
  from general at_96 at_16 show ?thesis by blast
qed

text \<open>
  C7. The claim: a resize to the current entry count leaves the table completely
  unchanged. In the source the call first meets the assertion above: it returns, with
  the state untouched, only when the current size is below the minimum, and is fatal
  for every table of at least the minimum size, as for the default table of 64 entries.
\<close>

theorem ResizeAllocationTable_to_current_size:
  "ResizeAllocationTable cfg mem (AllocationTableSize s) s =
     (if AllocationTableSize s < TAGGED_ALLOC_MIN_TABLE_SIZE cfg then Some (Inr s)
      else Some (Inl AssertResizeEntryCount)) \<and>
   ResizeAllocationTable default_config mem 64 empty_table = Some (Inl AssertResizeEntryCount)"
  by (simp add: ResizeAllocationTable_def default_config_def empty_table_def)

subsection \<open>Inserting into a full table\<close>

lemma GetFirstEmptySlot_loop_full:
  "unat (AllocationTableSize s) \<le> length (AllocationTable s) \<Longrightarrow>
   (\<forall>k. n \<le> k \<and> k < unat (AllocationTableSize s) \<longrightarrow>
        TAGGED_ALLOC_IS_VALID (AllocationTable s ! k)) \<Longrightarrow>
   GetFirstEmptySlot_loop s n = Inr None"
proof (induction s n rule: GetFirstEmptySlot_loop.induct)
  case (1 s n)
  show ?case
  proof (cases "n < unat (AllocationTableSize s)")
    case False
    then show ?thesis by (subst GetFirstEmptySlot_loop.simps) simp
  next
    case True
    with "1.prems" have len: "n < length (AllocationTable s)"
      and v: "TAGGED_ALLOC_IS_VALID (AllocationTable s ! n)" by simp_all
    have "GetFirstEmptySlot_loop s (Suc n) = Inr None"
      using "1.IH"[OF True len] v "1.prems" by simp
    with True len v show ?thesis by (subst GetFirstEmptySlot_loop.simps) simp
  qed
qed

lemma full_table_valid:
  "k < 64 \<Longrightarrow> TAGGED_ALLOC_IS_VALID (AllocationTable full_table ! k)"
proof -
  assume k: "k < 64"
  then have "AllocationTable full_table ! k = example_descriptor (of_nat (Suc k))"
    by (simp add: full_table_def)
  moreover have "(of_nat (Suc k) :: 32 word) \<noteq> 0"
    using k by (intro of_nat_neq_0) simp_all
  ultimately show ?thesis
    by (simp add: TAGGED_ALLOC_IS_VALID_def example_descriptor_def del: of_nat_Suc)
qed

text \<open>
  C2. The claim: an insertion into a table with no empty slot triggers one growth
  step, after which the table is larger, has a free slot, and the insertion succeeds.
  In the source the insertion finds no empty slot and requests the resize to
  \<^verbatim>\<open>AllocationTableSize + TAGGED_ALLOC_TABLE_EXPAND_STEP\<close> entries once; whenever that size
  is at or above the minimum table size the assertion of the resize fails, so the
  insertion is fatal and the table never grows. The default table with all 64 slots in
  use is such a state.
\<close>

theorem InsertAllocation_into_full_table_is_fatal:
  assumes "unat (AllocationTableSize s) \<le> length (AllocationTable s)"
    and "list_all TAGGED_ALLOC_IS_VALID
           (take (unat (AllocationTableSize s)) (AllocationTable s))"
    and "TAGGED_ALLOC_MIN_TABLE_SIZE cfg
           \<le> AllocationTableSize s + TAGGED_ALLOC_TABLE_EXPAND_STEP cfg"
  shows "GetFirstEmptySlot s = Inr None \<and>
         InsertAllocation cfg mem ta s = Some (Inl AssertResizeEntryCount)"
proof -
  have "\<forall>k. 0 \<le> k \<and> k < unat (AllocationTableSize s) \<longrightarrow>
            TAGGED_ALLOC_IS_VALID (AllocationTable s ! k)"
    using assms(1,2) by (simp add: list_all_length)
  with assms(1) have full: "GetFirstEmptySlot s = Inr None"
    unfolding GetFirstEmptySlot_def by (rule GetFirstEmptySlot_loop_full)
  have fatal: "ResizeAllocationTable cfg mem
                 (AllocationTableSize s + TAGGED_ALLOC_TABLE_EXPAND_STEP cfg) s
               = Some (Inl AssertResizeEntryCount)"
    using assms(3) by (intro ResizeAllocationTable_fires) (simp add: not_less)
  from full fatal show ?thesis by (simp add: InsertAllocation_def)
qed

theorem InsertAllocation_into_full_table_is_fatal_witness:
  "unat (AllocationTableSize full_table) \<le> length (AllocationTable full_table) \<and>
   list_all TAGGED_ALLOC_IS_VALID
     (take (unat (AllocationTableSize full_table)) (AllocationTable full_table)) \<and>
   TAGGED_ALLOC_MIN_TABLE_SIZE default_config
     \<le> AllocationTableSize full_table + TAGGED_ALLOC_TABLE_EXPAND_STEP default_config \<and>
   GetFirstEmptySlot full_table = Inr None \<and>
   InsertAllocation default_config None (example_descriptor 0x5000) full_table
     = Some (Inl AssertResizeEntryCount)"
proof -
  have h1: "unat (AllocationTableSize full_table) \<le> length (AllocationTable full_table)"
    by (simp add: full_table_def)
  have "length (AllocationTable full_table) = 64" "unat (AllocationTableSize full_table) = 64"
    by (simp_all add: full_table_def)
  then have h2: "list_all TAGGED_ALLOC_IS_VALID
     (take (unat (AllocationTableSize full_table)) (AllocationTable full_table))"
    using full_table_valid by (simp add: list_all_length)
  have h3: "TAGGED_ALLOC_MIN_TABLE_SIZE default_config
              \<le> AllocationTableSize full_table + TAGGED_ALLOC_TABLE_EXPAND_STEP default_config"
    by (simp add: full_table_def default_config_def)
  from InsertAllocation_into_full_table_is_fatal
         [OF h1 h2 h3, of None "example_descriptor 0x5000"] h1 h2 h3
  show ?thesis by blast
qed

subsection \<open>Defragmentation\<close>

text \<open>
  C4. The claim: after a defragmentation pass the valid records occupy exactly the
  slots below the live count, the slots from there on are empty, and no live record is
  discarded or duplicated. In the source the scan starts its counter at \<open>start\<close> but its
  entry pointer at the first slot, so from the second scan on the indices it reports
  are not those of the slots it tested. On the default table with records in slots 0,
  2 and 3 the first move is right (slot 2 into slot 1); the second scan, started at 1,
  reports slot 3 as empty and slot 4 as valid, and the move overwrites the record in
  slot 3 with the empty slot 4. The pass ends with two records left of three.
\<close>

theorem DefragAllocationTable_discards_a_record:
  "DefragAllocationTable fragmented_table =
     Some (Inr (fragmented_table\<lparr> AllocationTable :=
                  [example_descriptor 0x1000, example_descriptor 0x3000]
                  @ replicate 62 zero_descriptor \<rparr>)) \<and>
   map Object (valid_records fragmented_table) = [0x1000, 0x3000, 0x4000]"
  by code_simp

subsection \<open>The total size\<close>

lemma GetTotalSize_loop_sum:
  "unat (AllocationTableSize s) \<le> length (AllocationTable s) \<Longrightarrow>
   GetTotalSize_loop s index totalSize =
     Inr (totalSize + sum_list (map Size (filter TAGGED_ALLOC_IS_VALID
            (drop index (take (unat (AllocationTableSize s)) (AllocationTable s))))))"
proof (induction s index totalSize rule: GetTotalSize_loop.induct)
  case (1 s index totalSize)
  let ?n = "unat (AllocationTableSize s)"
  let ?t = "AllocationTable s"
  show ?case
  proof (cases "index < ?n")
    case False
    then show ?thesis by (subst GetTotalSize_loop.simps) simp
  next
    case True
    with "1.prems" have len: "index < length ?t" by simp
    from True len have cons: "drop index (take ?n ?t) = ?t ! index # drop (Suc index) (take ?n ?t)"
      by (simp add: Cons_nth_drop_Suc[symmetric])
    show ?thesis
    proof (cases "TAGGED_ALLOC_IS_VALID (?t ! index)")
      case v: True
      from "1.IH"(1)[OF True len v "1.prems"] True len v cons show ?thesis
        by (subst GetTotalSize_loop.simps) (simp add: add.assoc)
    next
      case nv: False
      from "1.IH"(2)[OF True len nv "1.prems"] True len nv cons show ?thesis
        by (subst GetTotalSize_loop.simps) simp
    qed
  qed
qed

lemma unat_sum_list_words:
  "unat (sum_list (map f xs) :: 32 word) = sum_list (map (\<lambda>x. unat (f x)) xs) mod 2 ^ 32"
proof (induction xs)
  case Nil
  show ?case by simp
next
  case (Cons x xs)
  have "unat (f x + sum_list (map f xs)) = (unat (f x) + unat (sum_list (map f xs))) mod 2 ^ 32"
    by (simp add: unat_word_ariths)
  also have "\<dots> = (unat (f x) + sum_list (map (\<lambda>x. unat (f x)) xs) mod 2 ^ 32) mod 2 ^ 32"
    by (simp only: Cons.IH)
  also have "\<dots> = (unat (f x) + sum_list (map (\<lambda>x. unat (f x)) xs)) mod 2 ^ 32"
    by (rule mod_add_right_eq)
  finally show ?case by simp
qed

lemma sum_list_map_mset_cong:
  fixes f :: "'a \<Rightarrow> 32 word"
  assumes "mset xs = mset ys"
  shows "sum_list (map f xs) = sum_list (map f ys)"
proof -
  have "sum_list (map f xs) = sum_mset (image_mset f (mset xs))"
    by (simp add: sum_mset_sum_list[symmetric])
  also have "\<dots> = sum_mset (image_mset f (mset ys))" by (simp only: assms)
  also have "\<dots> = sum_list (map f ys)" by (simp add: sum_mset_sum_list[symmetric])
  finally show ?thesis .
qed

lemma GetTotalSize_valid_records:
  assumes "unat (AllocationTableSize s) \<le> length (AllocationTable s)"
  shows "GetTotalSize s = Inr (sum_list (map Size (valid_records s)))"
  using GetTotalSize_loop_sum[OF assms, of 0 0]
  by (simp add: GetTotalSize_def valid_records_def)

lemma two_records_valid: "valid_records two_records_table = [record_TAGA, record_TAGB]"
  by (simp add: valid_records_def two_records_table_def record_TAGA_def record_TAGB_def
        TAGGED_ALLOC_IS_VALID_def zero_descriptor_def)

text \<open>
  C8. In every state whose buffer holds the \<^verbatim>\<open>AllocationTableSize\<close> slots,
  \<^verbatim>\<open>GetTotalSize\<close> returns the sum of the \<open>Size\<close> fields of the valid records, in the
  arithmetic of \<^verbatim>\<open>size_t\<close> (the sum of the sizes modulo \<open>2 ^ 32\<close>). The result is the same
  for any two tables holding the same valid records in whatever slots, and no term of
  it comes from the table's own storage: the function reads neither the configuration
  nor the size of a descriptor.
\<close>

theorem GetTotalSize_is_sum_of_valid_sizes:
  assumes "unat (AllocationTableSize s) \<le> length (AllocationTable s)"
  shows "GetTotalSize s = Inr (sum_list (map Size (valid_records s))) \<and>
     (\<exists>totalSize. GetTotalSize s = Inr totalSize \<and>
         unat totalSize = sum_list (map (\<lambda>d. unat (Size d)) (valid_records s)) mod 2 ^ 32) \<and>
     (\<forall>s'. unat (AllocationTableSize s') \<le> length (AllocationTable s') \<and>
           mset (valid_records s') = mset (valid_records s) \<longrightarrow>
           GetTotalSize s' = GetTotalSize s)"
proof (intro conjI allI impI)
  show "GetTotalSize s = Inr (sum_list (map Size (valid_records s)))"
    by (rule GetTotalSize_valid_records[OF assms])
  then show "\<exists>totalSize. GetTotalSize s = Inr totalSize \<and>
         unat totalSize = sum_list (map (\<lambda>d. unat (Size d)) (valid_records s)) mod 2 ^ 32"
    by (simp add: unat_sum_list_words)
next
  fix s'
  assume a: "unat (AllocationTableSize s') \<le> length (AllocationTable s') \<and>
           mset (valid_records s') = mset (valid_records s)"
  then have "sum_list (map Size (valid_records s')) = sum_list (map Size (valid_records s))"
    by (intro sum_list_map_mset_cong) simp
  with a show "GetTotalSize s' = GetTotalSize s"
    by (simp add: GetTotalSize_valid_records assms)
qed

theorem GetTotalSize_is_sum_of_valid_sizes_witness:
  "unat (AllocationTableSize two_records_table) \<le> length (AllocationTable two_records_table) \<and>
   GetTotalSize two_records_table = Inr 48"
proof -
  have h: "unat (AllocationTableSize two_records_table)
             \<le> length (AllocationTable two_records_table)"
    by (simp add: two_records_table_def)
  from GetTotalSize_is_sum_of_valid_sizes[OF h]
  have "GetTotalSize two_records_table
        = Inr (sum_list (map Size (valid_records two_records_table)))" by blast
  then have "GetTotalSize two_records_table = Inr 48"
    by (simp add: two_records_valid record_TAGA_def record_TAGB_def)
  with h show ?thesis by simp
qed

subsection \<open>The allocation count\<close>

text \<open>
  An insertion that returns has added one to the count, a removal that returns has
  taken one away, in the arithmetic of \<^verbatim>\<open>size_t\<close>; pointers that are outstanding together
  are distinct and not null, so there are fewer than \<open>2 ^ 32\<close> of them.
\<close>

lemma InsertAllocation_count:
  assumes "InsertAllocation cfg mem ta s = Some (Inr s')"
  shows "AllocationCount s' = AllocationCount s + 1"
proof (cases "GetFirstEmptySlot s")
  case (Inl e)
  with assms show ?thesis by (simp add: InsertAllocation_def)
next
  case (Inr found)
  let ?grow = "if found = None
               then ResizeAllocationTable cfg mem
                      (AllocationTableSize s + TAGGED_ALLOC_TABLE_EXPAND_STEP cfg) s
               else Some (Inr s)"
  from assms Inr obtain s1 where s1: "?grow = Some (Inr s1)"
    by (cases ?grow) (auto simp: InsertAllocation_def split: sum.splits)
  have c1: "AllocationCount s1 = AllocationCount s"
  proof (cases "found = None")
    case True
    with s1 show ?thesis by (auto dest: ResizeAllocationTable_count)
  next
    case False
    with s1 show ?thesis by simp
  qed
  from assms Inr s1 obtain insertIndex where
    "s' = s1\<lparr> AllocationTable := (AllocationTable s1)[insertIndex := ta],
              AllocationCount := AllocationCount s1 + 1 \<rparr>"
    by (auto simp: InsertAllocation_def split: sum.splits option.splits)
  with c1 show ?thesis by simp
qed

lemma RemoveAllocation_count:
  assumes "RemoveAllocation cfg mem objectPointer s = Some (Inr s')"
  shows "AllocationCount s' = AllocationCount s - 1"
proof (cases "RemoveAllocation_loop s objectPointer 0")
  case (Inl e)
  with assms show ?thesis by (simp add: RemoveAllocation_def)
next
  case (Inr s1)
  then have c1: "AllocationCount s1 = AllocationCount s"
    by (auto dest: RemoveAllocation_loop_fields)
  let ?s2 = "s1\<lparr> AllocationCount := AllocationCount s1 - 1 \<rparr>"
  show ?thesis
  proof (cases "AllocationCount ?s2 > TAGGED_ALLOC_MIN_TABLE_SIZE cfg \<and>
              AllocationCount ?s2 + TAGGED_ALLOC_TABLE_SHRINK_STEP cfg < AllocationTableSize ?s2")
    case True
    with assms Inr have "ResizeAllocationTable cfg mem
        (AllocationTableSize ?s2 - TAGGED_ALLOC_TABLE_SHRINK_STEP cfg) ?s2 = Some (Inr s')"
      by (simp add: RemoveAllocation_def Let_def)
    from ResizeAllocationTable_count[OF this] c1 show ?thesis by simp
  next
    case False
    with assms Inr have "s' = ?s2"
      by (auto simp: RemoveAllocation_def Let_def)
    with c1 show ?thesis by simp
  qed
qed

lemma do_call_Allocate_count:
  "Allocate cfg mem sizeof_T tag now object s = Some (Inr s') \<Longrightarrow>
   object \<noteq> 0 \<and> AllocationCount s' = AllocationCount s + 1"
  by (auto simp: Allocate_def AllocateInternal_def Let_def split: if_splits
           dest: InsertAllocation_count)

lemma do_call_AllocateArray_count:
  "AllocateArray cfg mem sizeof_T cnt tag now object s = Some (Inr s') \<Longrightarrow>
   object \<noteq> 0 \<and> AllocationCount s' = AllocationCount s + 1"
  by (auto simp: AllocateArray_def AllocateInternal_def Let_def split: if_splits
           dest: InsertAllocation_count)

lemma do_call_Free_count:
  "Free cfg mem object s = Some (Inr s') \<Longrightarrow> AllocationCount s' = AllocationCount s - 1"
  by (auto simp: Free_def dest: RemoveAllocation_count)

lemma run_count:
  "run cfg cs s = Some (Inr s') \<Longrightarrow> matched cs live \<Longrightarrow>
   distinct live \<Longrightarrow> 0 \<notin> set live \<Longrightarrow>
   AllocationCount s = of_nat (length live) \<Longrightarrow>
   AllocationCount s' = of_nat (length (outstanding cs live)) \<and>
   distinct (outstanding cs live) \<and> 0 \<notin> set (outstanding cs live)"
proof (induction cs arbitrary: s live)
  case Nil
  then show ?case by simp
next
  case (Cons c cs)
  from Cons.prems(1) obtain s1 where s1: "do_call cfg c s = Some (Inr s1)"
    and rest: "run cfg cs s1 = Some (Inr s')"
    by (auto split: option.splits sum.splits)
  show ?case
  proof (cases c)
    case (Call_Allocate mem sizeof_T tag now object)
    with s1 have "object \<noteq> 0" and c1: "AllocationCount s1 = AllocationCount s + 1"
      by (auto dest: do_call_Allocate_count)
    with Cons.prems Call_Allocate
    have "matched cs (object # live)" "distinct (object # live)" "0 \<notin> set (object # live)"
      "AllocationCount s1 = of_nat (length (object # live))"
      by auto
    from Cons.IH[OF rest this] Call_Allocate show ?thesis by simp
  next
    case (Call_AllocateArray mem sizeof_T cnt tag now object)
    with s1 have "object \<noteq> 0" and c1: "AllocationCount s1 = AllocationCount s + 1"
      by (auto dest: do_call_AllocateArray_count)
    with Cons.prems Call_AllocateArray
    have "matched cs (object # live)" "distinct (object # live)" "0 \<notin> set (object # live)"
      "AllocationCount s1 = of_nat (length (object # live))"
      by auto
    from Cons.IH[OF rest this] Call_AllocateArray show ?thesis by simp
  next
    case (Call_Free mem object)
    with s1 have c1: "AllocationCount s1 = AllocationCount s - 1"
      by (auto dest: do_call_Free_count)
    from Cons.prems(2) Call_Free have mem: "object \<in> set live" and m: "matched cs (remove1 object live)"
      by simp_all
    from mem have "live \<noteq> []" by auto
    then have "length live \<ge> 1" by (cases live) simp_all
    with mem have len: "length (remove1 object live) = length live - 1" "length live \<ge> 1"
      by (simp_all add: length_remove1)
    then have "(of_nat (length (remove1 object live)) :: 32 word) = of_nat (length live) - 1"
      by simp
    with c1 Cons.prems(5) have c: "AllocationCount s1 = of_nat (length (remove1 object live))"
      by simp
    have d: "distinct (remove1 object live)" using Cons.prems(3) by simp
    have z: "0 \<notin> set (remove1 object live)" using Cons.prems(4) notin_set_remove1 by fast
    from Cons.IH[OF rest m d z c] Call_Free show ?thesis by simp
  qed
qed

lemma distinct_nonzero_words_length:
  fixes xs :: "32 word list"
  assumes "distinct xs" "0 \<notin> set xs"
  shows "length xs < 2 ^ 32"
proof -
  have "set xs \<subset> (UNIV :: 32 word set)" using assms(2) by auto
  then have "card (set xs) < card (UNIV :: 32 word set)"
    by (intro psubset_card_mono) simp_all
  with assms(1) show ?thesis by (simp add: distinct_card card_word)
qed

text \<open>
  C5. Take any sequence of \<^verbatim>\<open>Allocate\<close>, \<^verbatim>\<open>AllocateArray\<close> and \<^verbatim>\<open>Free\<close> calls in which every
  \<^verbatim>\<open>Free\<close> is on a pointer that an earlier allocation returned and that is not yet freed.
  If the calls start from a count of zero and none of them is fatal, then afterwards
  \<^verbatim>\<open>GetAllocationCount\<close> is the number of allocations not yet matched by a \<^verbatim>\<open>Free\<close> of
  their pointer.
\<close>

theorem GetAllocationCount_is_number_of_outstanding_allocations:
  assumes "run cfg cs s = Some (Inr s')" and "matched cs []" and "AllocationCount s = 0"
  shows "unat (GetAllocationCount s') = length (outstanding cs [])"
proof -
  from run_count[OF assms(1,2)] assms(3)
  have c: "AllocationCount s' = of_nat (length (outstanding cs []))"
    and d: "distinct (outstanding cs [])" and z: "0 \<notin> set (outstanding cs [])"
    by simp_all
  from distinct_nonzero_words_length[OF d z] c show ?thesis
    by (simp add: GetAllocationCount_def unat_of_nat)
qed

theorem GetAllocationCount_is_number_of_outstanding_allocations_witness:
  "run default_config example_calls empty_table = Some (Inr example_final) \<and>
   matched example_calls [] \<and>
   AllocationCount empty_table = 0 \<and>
   outstanding example_calls [] = [0x2000] \<and>
   unat (GetAllocationCount example_final) = 1"
proof -
  have r: "run default_config example_calls empty_table = Some (Inr example_final)"
    by code_simp
  have m: "matched example_calls []" by (simp add: example_calls_def)
  have c: "AllocationCount empty_table = 0" by (simp add: empty_table_def)
  have out: "outstanding example_calls [] = [0x2000]" by (simp add: example_calls_def)
  from GetAllocationCount_is_number_of_outstanding_allocations[OF r m c] out r m c
  show ?thesis by simp
qed

subsection \<open>The shrink test of the removal\<close>

text \<open>
  After its scan \<^verbatim>\<open>RemoveAllocation\<close> decrements the count and tests
  \<^verbatim>\<open>AllocationCount > TAGGED_ALLOC_MIN_TABLE_SIZE\<close> and
  \<^verbatim>\<open>AllocationCount + TAGGED_ALLOC_TABLE_SHRINK_STEP < AllocationTableSize\<close>. The call is
  the resize by one shrink step when the test holds, and returns the scanned state with
  the new count when it does not.
\<close>

lemma RemoveAllocation_scan_then_test:
  assumes "unat (AllocationTableSize s) \<le> length (AllocationTable s)"
  shows "\<exists>r. RemoveAllocation_loop s objectPointer 0 = Inr r \<and>
     AllocationCount r = AllocationCount s \<and>
     AllocationTableSize r = AllocationTableSize s \<and>
     length (AllocationTable r) = length (AllocationTable s) \<and>
     RemoveAllocation cfg mem objectPointer s =
       (if TAGGED_ALLOC_MIN_TABLE_SIZE cfg < AllocationCount s - 1 \<and>
           AllocationCount s - 1 + TAGGED_ALLOC_TABLE_SHRINK_STEP cfg < AllocationTableSize s
        then ResizeAllocationTable cfg mem
               (AllocationTableSize s - TAGGED_ALLOC_TABLE_SHRINK_STEP cfg)
               (r\<lparr> AllocationCount := AllocationCount s - 1 \<rparr>)
        else Some (Inr (r\<lparr> AllocationCount := AllocationCount s - 1 \<rparr>)))"
proof -
  from RemoveAllocation_loop_from[OF assms, of objectPointer 0]
  obtain r where r: "RemoveAllocation_loop s objectPointer 0 = Inr r"
    by (elim exE conjE)
  from RemoveAllocation_loop_fields[OF r]
  have f: "AllocationCount r = AllocationCount s" "AllocationTableSize r = AllocationTableSize s"
    "length (AllocationTable r) = length (AllocationTable s)" by simp_all
  have "RemoveAllocation cfg mem objectPointer s =
       (if TAGGED_ALLOC_MIN_TABLE_SIZE cfg < AllocationCount s - 1 \<and>
           AllocationCount s - 1 + TAGGED_ALLOC_TABLE_SHRINK_STEP cfg < AllocationTableSize s
        then ResizeAllocationTable cfg mem
               (AllocationTableSize s - TAGGED_ALLOC_TABLE_SHRINK_STEP cfg)
               (r\<lparr> AllocationCount := AllocationCount s - 1 \<rparr>)
        else Some (Inr (r\<lparr> AllocationCount := AllocationCount s - 1 \<rparr>)))"
    unfolding RemoveAllocation_def r Let_def by (simp add: f)
  with r f show ?thesis by (intro exI[of _ r] conjI)
qed

lemma shrink_test_target_above_minimum:
  fixes c step size minimum :: "32 word"
  assumes "minimum < c" and "c + step < size" and "unat c + unat step < 2 ^ 32"
  shows "minimum < size - step"
proof -
  from assms(3) have sum: "unat (c + step) = unat c + unat step"
    by (simp add: unat_add_lem[THEN iffD1])
  from assms(2) sum have lt: "unat c + unat step < unat size"
    by (simp add: word_less_nat_alt)
  then have "step \<le> size" by (simp add: word_le_nat_alt)
  then have "unat (size - step) = unat size - unat step" by (rule unat_sub)
  moreover from assms(1) have "unat minimum < unat c" by (simp add: word_less_nat_alt)
  ultimately show ?thesis using lt by (simp add: word_less_nat_alt)
qed

lemma shrink_test_never_at_96:
  fixes c :: "32 word"
  assumes "0 < c" and "c \<le> 96"
  shows "\<not> (32 < c - 1 \<and> c - 1 + 64 < 96)"
proof
  assume a: "32 < c - 1 \<and> c - 1 + 64 < 96"
  from assms(1) have "c \<noteq> 0" by auto
  then have m: "unat (c - 1) = unat c - 1" by (rule unat_minus_one)
  from assms(2) have le: "unat c \<le> 96" by (simp add: word_le_nat_alt)
  with m have nw: "unat (c - 1) + unat (64 :: 32 word) < 2 ^ 32" by simp
  from a have "32 < c - 1" and "c - 1 + 64 < 96" by blast+
  from shrink_test_target_above_minimum[OF this nw] show False by simp
qed

lemma RemoveAllocation_loop_no_match:
  assumes "unat (AllocationTableSize s) \<le> length (AllocationTable s)"
    and "\<forall>k. k < unat (AllocationTableSize s) \<longrightarrow>
            \<not> (TAGGED_ALLOC_IS_VALID (AllocationTable s ! k) \<and>
               Object (AllocationTable s ! k) = objectPointer)"
  shows "RemoveAllocation_loop s objectPointer 0 = Inr s"
proof -
  from RemoveAllocation_loop_from[OF assms(1), of objectPointer 0]
  obtain r where r: "RemoveAllocation_loop s objectPointer 0 = Inr r"
    and d: "(r = s \<and> (\<forall>k. 0 \<le> k \<and> k < unat (AllocationTableSize s) \<longrightarrow>
                  \<not> (TAGGED_ALLOC_IS_VALID (AllocationTable s ! k) \<and> Object (AllocationTable s ! k) = objectPointer)))
      \<or> (\<exists>i. 0 \<le> i \<and> i < unat (AllocationTableSize s) \<and>
             TAGGED_ALLOC_IS_VALID (AllocationTable s ! i) \<and> Object (AllocationTable s ! i) = objectPointer \<and>
             (\<forall>j. 0 \<le> j \<and> j < i \<longrightarrow>
                  \<not> (TAGGED_ALLOC_IS_VALID (AllocationTable s ! j) \<and> Object (AllocationTable s ! j) = objectPointer)) \<and>
             r = s\<lparr> AllocationTable := (AllocationTable s)[i := zero_descriptor] \<rparr>)"
    by (elim exE conjE)
  from d have "r = s"
  proof
    assume "r = s \<and> (\<forall>k. 0 \<le> k \<and> k < unat (AllocationTableSize s) \<longrightarrow>
                  \<not> (TAGGED_ALLOC_IS_VALID (AllocationTable s ! k) \<and> Object (AllocationTable s ! k) = objectPointer))"
    then show ?thesis by (rule conjunct1)
  next
    assume "\<exists>i. 0 \<le> i \<and> i < unat (AllocationTableSize s) \<and>
             TAGGED_ALLOC_IS_VALID (AllocationTable s ! i) \<and> Object (AllocationTable s ! i) = objectPointer \<and>
             (\<forall>j. 0 \<le> j \<and> j < i \<longrightarrow>
                  \<not> (TAGGED_ALLOC_IS_VALID (AllocationTable s ! j) \<and> Object (AllocationTable s ! j) = objectPointer)) \<and>
             r = s\<lparr> AllocationTable := (AllocationTable s)[i := zero_descriptor] \<rparr>"
    then obtain i where "i < unat (AllocationTableSize s)"
      "TAGGED_ALLOC_IS_VALID (AllocationTable s ! i)" "Object (AllocationTable s ! i) = objectPointer"
      by (elim exE conjE)
    with assms(2) have False by simp
    then show ?thesis ..
  qed
  with r show ?thesis by simp
qed

text \<open>
  C1 as stated: the table is shrunk by one shrink step exactly when the live count
  leaves more than a shrink step of free slots and the shrunk size is not below the
  minimum; a table of 96 entries (shrink step 64, minimum 32) shrinks once the live
  count drops below 32. This fails: in the table of 96 entries with 21 records, the
  removal of one leaves 20, both conditions of the claim hold (20 + 64 < 96 and
  96 - 64 = 32 is not below 32), and the table keeps its 96 entries, because the source
  tests the live count, not the shrunk size, against the minimum.
\<close>

theorem RemoveAllocation_shrink_test_counterexample:
  "AllocationCount table_96 - 1 + TAGGED_ALLOC_TABLE_SHRINK_STEP config_96
     < AllocationTableSize table_96 \<and>
   TAGGED_ALLOC_MIN_TABLE_SIZE config_96
     \<le> AllocationTableSize table_96 - TAGGED_ALLOC_TABLE_SHRINK_STEP config_96 \<and>
   RemoveAllocation config_96 None 1 table_96 =
     Some (Inr (table_96\<lparr> AllocationTable := (AllocationTable table_96)[0 := zero_descriptor],
                         AllocationCount := 20 \<rparr>)) \<and>
   AllocationTableSize
     (table_96\<lparr> AllocationTable := (AllocationTable table_96)[0 := zero_descriptor],
               AllocationCount := 20 \<rparr>) = 96"
  by code_simp


text \<open>
  C1 as amended. After a removal (on a buffer holding the table's slots) the resize by
  exactly one shrink step is requested if and only if the decremented live count is
  greater than the minimum table size and the live count plus the shrink step is less
  than the table size, both in \<^verbatim>\<open>size_t\<close> arithmetic; otherwise the call returns and the
  table keeps its size. When the test holds without wrap-around the requested size is
  above the minimum. In particular a removal from a table of 96 entries with shrink
  step 64 and minimum 32, holding 1 to 96 records, never requests a shrink: the table
  keeps its 96 entries. What the requested resize then does is not part of the statement.
\<close>

theorem RemoveAllocation_shrink_test:
  assumes "unat (AllocationTableSize s) \<le> length (AllocationTable s)"
  shows
    "(\<not> (TAGGED_ALLOC_MIN_TABLE_SIZE cfg < AllocationCount s - 1 \<and>
         AllocationCount s - 1 + TAGGED_ALLOC_TABLE_SHRINK_STEP cfg < AllocationTableSize s) \<longrightarrow>
        (\<exists>s'. RemoveAllocation cfg mem objectPointer s = Some (Inr s') \<and>
              AllocationTableSize s' = AllocationTableSize s \<and>
              length (AllocationTable s') = length (AllocationTable s))) \<and>
     (TAGGED_ALLOC_MIN_TABLE_SIZE cfg < AllocationCount s - 1 \<and>
      AllocationCount s - 1 + TAGGED_ALLOC_TABLE_SHRINK_STEP cfg < AllocationTableSize s \<longrightarrow>
        (\<exists>s2. RemoveAllocation cfg mem objectPointer s =
                 ResizeAllocationTable cfg mem
                   (AllocationTableSize s - TAGGED_ALLOC_TABLE_SHRINK_STEP cfg) s2 \<and>
              AllocationTableSize s2 = AllocationTableSize s \<and>
              AllocationCount s2 = AllocationCount s - 1)) \<and>
     (TAGGED_ALLOC_MIN_TABLE_SIZE cfg < AllocationCount s - 1 \<and>
      AllocationCount s - 1 + TAGGED_ALLOC_TABLE_SHRINK_STEP cfg < AllocationTableSize s \<and>
      unat (AllocationCount s - 1) + unat (TAGGED_ALLOC_TABLE_SHRINK_STEP cfg) < 2 ^ 32 \<longrightarrow>
        TAGGED_ALLOC_MIN_TABLE_SIZE cfg
          < AllocationTableSize s - TAGGED_ALLOC_TABLE_SHRINK_STEP cfg) \<and>
     (TAGGED_ALLOC_MIN_TABLE_SIZE cfg = 32 \<and> TAGGED_ALLOC_TABLE_SHRINK_STEP cfg = 64 \<and>
      AllocationTableSize s = 96 \<and> 0 < AllocationCount s \<and> AllocationCount s \<le> 96 \<longrightarrow>
        (\<exists>s'. RemoveAllocation cfg mem objectPointer s = Some (Inr s') \<and>
              AllocationTableSize s' = 96))"
proof -
  let ?test = "TAGGED_ALLOC_MIN_TABLE_SIZE cfg < AllocationCount s - 1 \<and>
         AllocationCount s - 1 + TAGGED_ALLOC_TABLE_SHRINK_STEP cfg < AllocationTableSize s"
  from RemoveAllocation_scan_then_test[OF assms, of objectPointer cfg mem]
  obtain r where f: "AllocationTableSize r = AllocationTableSize s"
      "length (AllocationTable r) = length (AllocationTable s)"
    and eq: "RemoveAllocation cfg mem objectPointer s =
       (if ?test
        then ResizeAllocationTable cfg mem
               (AllocationTableSize s - TAGGED_ALLOC_TABLE_SHRINK_STEP cfg)
               (r\<lparr> AllocationCount := AllocationCount s - 1 \<rparr>)
        else Some (Inr (r\<lparr> AllocationCount := AllocationCount s - 1 \<rparr>)))"
    by (elim exE conjE)
  let ?s2 = "r\<lparr> AllocationCount := AllocationCount s - 1 \<rparr>"
  have no: "\<not> ?test \<longrightarrow>
        (\<exists>s'. RemoveAllocation cfg mem objectPointer s = Some (Inr s') \<and>
              AllocationTableSize s' = AllocationTableSize s \<and>
              length (AllocationTable s') = length (AllocationTable s))"
  proof
    assume "\<not> ?test"
    with eq have "RemoveAllocation cfg mem objectPointer s = Some (Inr ?s2)" by simp
    with f show "\<exists>s'. RemoveAllocation cfg mem objectPointer s = Some (Inr s') \<and>
              AllocationTableSize s' = AllocationTableSize s \<and>
              length (AllocationTable s') = length (AllocationTable s)"
      by (intro exI[of _ ?s2]) simp
  qed
  have yes: "?test \<longrightarrow>
        (\<exists>s2. RemoveAllocation cfg mem objectPointer s =
                 ResizeAllocationTable cfg mem
                   (AllocationTableSize s - TAGGED_ALLOC_TABLE_SHRINK_STEP cfg) s2 \<and>
              AllocationTableSize s2 = AllocationTableSize s \<and>
              AllocationCount s2 = AllocationCount s - 1)"
  proof
    assume ?test
    with eq have "RemoveAllocation cfg mem objectPointer s =
        ResizeAllocationTable cfg mem
          (AllocationTableSize s - TAGGED_ALLOC_TABLE_SHRINK_STEP cfg) ?s2" by simp
    with f show "\<exists>s2. RemoveAllocation cfg mem objectPointer s =
                 ResizeAllocationTable cfg mem
                   (AllocationTableSize s - TAGGED_ALLOC_TABLE_SHRINK_STEP cfg) s2 \<and>
              AllocationTableSize s2 = AllocationTableSize s \<and>
              AllocationCount s2 = AllocationCount s - 1"
      by (intro exI[of _ ?s2]) simp
  qed
  have above: "TAGGED_ALLOC_MIN_TABLE_SIZE cfg < AllocationCount s - 1 \<and>
      AllocationCount s - 1 + TAGGED_ALLOC_TABLE_SHRINK_STEP cfg < AllocationTableSize s \<and>
      unat (AllocationCount s - 1) + unat (TAGGED_ALLOC_TABLE_SHRINK_STEP cfg) < 2 ^ 32 \<longrightarrow>
        TAGGED_ALLOC_MIN_TABLE_SIZE cfg
          < AllocationTableSize s - TAGGED_ALLOC_TABLE_SHRINK_STEP cfg"
  proof
    assume a: "TAGGED_ALLOC_MIN_TABLE_SIZE cfg < AllocationCount s - 1 \<and>
      AllocationCount s - 1 + TAGGED_ALLOC_TABLE_SHRINK_STEP cfg < AllocationTableSize s \<and>
      unat (AllocationCount s - 1) + unat (TAGGED_ALLOC_TABLE_SHRINK_STEP cfg) < 2 ^ 32"
    then have "TAGGED_ALLOC_MIN_TABLE_SIZE cfg < AllocationCount s - 1"
      and "AllocationCount s - 1 + TAGGED_ALLOC_TABLE_SHRINK_STEP cfg < AllocationTableSize s"
      and "unat (AllocationCount s - 1) + unat (TAGGED_ALLOC_TABLE_SHRINK_STEP cfg) < 2 ^ 32"
      by simp_all
    then show "TAGGED_ALLOC_MIN_TABLE_SIZE cfg
          < AllocationTableSize s - TAGGED_ALLOC_TABLE_SHRINK_STEP cfg"
      by (rule shrink_test_target_above_minimum)
  qed
  have at_96: "TAGGED_ALLOC_MIN_TABLE_SIZE cfg = 32 \<and> TAGGED_ALLOC_TABLE_SHRINK_STEP cfg = 64 \<and>
      AllocationTableSize s = 96 \<and> 0 < AllocationCount s \<and> AllocationCount s \<le> 96 \<longrightarrow>
        (\<exists>s'. RemoveAllocation cfg mem objectPointer s = Some (Inr s') \<and>
              AllocationTableSize s' = 96)"
  proof
    assume a: "TAGGED_ALLOC_MIN_TABLE_SIZE cfg = 32 \<and> TAGGED_ALLOC_TABLE_SHRINK_STEP cfg = 64 \<and>
      AllocationTableSize s = 96 \<and> 0 < AllocationCount s \<and> AllocationCount s \<le> 96"
    then have "0 < AllocationCount s" and "AllocationCount s \<le> 96" by simp_all
    then have "\<not> (32 < AllocationCount s - 1 \<and> AllocationCount s - 1 + 64 < 96)"
      by (rule shrink_test_never_at_96)
    with a have "\<not> ?test" by simp
    with eq have "RemoveAllocation cfg mem objectPointer s = Some (Inr ?s2)" by simp
    with f a show "\<exists>s'. RemoveAllocation cfg mem objectPointer s = Some (Inr s') \<and>
              AllocationTableSize s' = 96"
      by (intro exI[of _ ?s2]) simp
  qed
  from no yes above at_96 show ?thesis by (intro conjI)
qed

theorem RemoveAllocation_shrink_test_witness:
  "unat (AllocationTableSize table_96) \<le> length (AllocationTable table_96) \<and>
   (\<exists>s'. RemoveAllocation config_96 None 1 table_96 = Some (Inr s') \<and>
         AllocationTableSize s' = 96)"
proof -
  have h: "unat (AllocationTableSize table_96) \<le> length (AllocationTable table_96)"
    by (simp add: table_96_def)
  have a: "TAGGED_ALLOC_MIN_TABLE_SIZE config_96 = 32 \<and>
      TAGGED_ALLOC_TABLE_SHRINK_STEP config_96 = 64 \<and>
      AllocationTableSize table_96 = 96 \<and> 0 < AllocationCount table_96 \<and>
      AllocationCount table_96 \<le> 96"
    by (simp add: config_96_def default_config_def table_96_def)
  from RemoveAllocation_shrink_test[OF h, of config_96 None 1]
  have "TAGGED_ALLOC_MIN_TABLE_SIZE config_96 = 32 \<and>
      TAGGED_ALLOC_TABLE_SHRINK_STEP config_96 = 64 \<and>
      AllocationTableSize table_96 = 96 \<and> 0 < AllocationCount table_96 \<and>
      AllocationCount table_96 \<le> 96 \<longrightarrow>
      (\<exists>s'. RemoveAllocation config_96 None 1 table_96 = Some (Inr s') \<and>
         AllocationTableSize s' = 96)" by (elim conjE)
  from this a
  have "\<exists>s'. RemoveAllocation config_96 None 1 table_96 = Some (Inr s') \<and>
         AllocationTableSize s' = 96" by (rule mp)
  with h show ?thesis by (rule conjI)
qed

subsection \<open>Freeing a pointer that is not tracked\<close>

text \<open>
  What \<^verbatim>\<open>Free\<close> does up to its shrink test, on a buffer holding the table's slots: the
  scan raises no error; a call that returns has decremented the count by exactly one,
  in \<^verbatim>\<open>size_t\<close> arithmetic; a call whose shrink test fails returns; and when no valid slot
  holds the pointer such a call leaves the table as it was, so \<^verbatim>\<open>GetAllocationCount\<close> has
  changed while the valid records have not.
\<close>

lemma Free_returning_call_decrements_count:
  assumes "unat (AllocationTableSize s) \<le> length (AllocationTable s)"
  shows
    "(\<exists>r. RemoveAllocation_loop s object 0 = Inr r) \<and>
     (\<forall>s'. Free cfg mem object s = Some (Inr s') \<longrightarrow>
           GetAllocationCount s' = GetAllocationCount s - 1) \<and>
     (\<not> (TAGGED_ALLOC_MIN_TABLE_SIZE cfg < AllocationCount s - 1 \<and>
         AllocationCount s - 1 + TAGGED_ALLOC_TABLE_SHRINK_STEP cfg < AllocationTableSize s) \<longrightarrow>
        (\<exists>s'. Free cfg mem object s = Some (Inr s'))) \<and>
     (\<not> (TAGGED_ALLOC_MIN_TABLE_SIZE cfg < AllocationCount s - 1 \<and>
         AllocationCount s - 1 + TAGGED_ALLOC_TABLE_SHRINK_STEP cfg < AllocationTableSize s) \<and>
      (\<forall>k. k < unat (AllocationTableSize s) \<longrightarrow>
           \<not> (TAGGED_ALLOC_IS_VALID (AllocationTable s ! k) \<and>
              Object (AllocationTable s ! k) = object)) \<longrightarrow>
        Free cfg mem object s = Some (Inr (s\<lparr> AllocationCount := AllocationCount s - 1 \<rparr>)) \<and>
        valid_records (s\<lparr> AllocationCount := AllocationCount s - 1 \<rparr>) = valid_records s \<and>
        GetAllocationCount (s\<lparr> AllocationCount := AllocationCount s - 1 \<rparr>)
          \<noteq> GetAllocationCount s)"
proof -
  let ?test = "TAGGED_ALLOC_MIN_TABLE_SIZE cfg < AllocationCount s - 1 \<and>
         AllocationCount s - 1 + TAGGED_ALLOC_TABLE_SHRINK_STEP cfg < AllocationTableSize s"
  let ?untracked = "\<forall>k. k < unat (AllocationTableSize s) \<longrightarrow>
           \<not> (TAGGED_ALLOC_IS_VALID (AllocationTable s ! k) \<and>
              Object (AllocationTable s ! k) = object)"
  from RemoveAllocation_scan_then_test[OF assms, of object cfg mem]
  obtain r where r: "RemoveAllocation_loop s object 0 = Inr r"
    and eq: "RemoveAllocation cfg mem object s =
       (if ?test
        then ResizeAllocationTable cfg mem
               (AllocationTableSize s - TAGGED_ALLOC_TABLE_SHRINK_STEP cfg)
               (r\<lparr> AllocationCount := AllocationCount s - 1 \<rparr>)
        else Some (Inr (r\<lparr> AllocationCount := AllocationCount s - 1 \<rparr>)))"
    by (elim exE conjE)
  from r have scan: "\<exists>r. RemoveAllocation_loop s object 0 = Inr r" by (rule exI)
  have dec: "\<forall>s'. Free cfg mem object s = Some (Inr s') \<longrightarrow>
           GetAllocationCount s' = GetAllocationCount s - 1"
    by (simp add: Free_def GetAllocationCount_def RemoveAllocation_count)
  have ret: "\<not> ?test \<longrightarrow> (\<exists>s'. Free cfg mem object s = Some (Inr s'))"
  proof
    assume "\<not> ?test"
    with eq have "Free cfg mem object s
        = Some (Inr (r\<lparr> AllocationCount := AllocationCount s - 1 \<rparr>))"
      by (simp add: Free_def)
    then show "\<exists>s'. Free cfg mem object s = Some (Inr s')" by (rule exI)
  qed
  have mismatch: "\<not> ?test \<and> ?untracked \<longrightarrow>
        Free cfg mem object s = Some (Inr (s\<lparr> AllocationCount := AllocationCount s - 1 \<rparr>)) \<and>
        valid_records (s\<lparr> AllocationCount := AllocationCount s - 1 \<rparr>) = valid_records s \<and>
        GetAllocationCount (s\<lparr> AllocationCount := AllocationCount s - 1 \<rparr>)
          \<noteq> GetAllocationCount s"
  proof
    assume a: "\<not> ?test \<and> ?untracked"
    then have u: ?untracked by (rule conjunct2)
    from RemoveAllocation_loop_no_match[OF assms u] r have "r = s" by simp
    with eq a have "Free cfg mem object s
        = Some (Inr (s\<lparr> AllocationCount := AllocationCount s - 1 \<rparr>))"
      by (simp add: Free_def)
    moreover have "valid_records (s\<lparr> AllocationCount := AllocationCount s - 1 \<rparr>) = valid_records s"
      by (simp add: valid_records_def)
    moreover have "GetAllocationCount (s\<lparr> AllocationCount := AllocationCount s - 1 \<rparr>)
          \<noteq> GetAllocationCount s"
      by (simp add: GetAllocationCount_def)
    ultimately show "Free cfg mem object s = Some (Inr (s\<lparr> AllocationCount := AllocationCount s - 1 \<rparr>)) \<and>
        valid_records (s\<lparr> AllocationCount := AllocationCount s - 1 \<rparr>) = valid_records s \<and>
        GetAllocationCount (s\<lparr> AllocationCount := AllocationCount s - 1 \<rparr>)
          \<noteq> GetAllocationCount s" by (intro conjI)
  qed
  from scan dec ret mismatch show ?thesis by (intro conjI)
qed


text \<open>
  C6. The claim: for every pointer passed to \<^verbatim>\<open>Free\<close>, tracked or not, the call raises no
  error and the count goes down by exactly one. In the source the count is decremented
  whether or not a slot matched, but the call is fatal wherever the shrink test holds
  after the decrement, since the resize it requests stops on its inverted assertion. In
  a table of 128 entries with 40 records (initial table size 128) the count becomes
  39, the test holds (39 > 32 and 39 + 64 < 128), and the resize to 64 entries aborts
  on \<^verbatim>\<open>assert(newEntryCount < TAGGED_ALLOC_MIN_TABLE_SIZE)\<close>: so for the untracked pointer
  \<^verbatim>\<open>0xDEAD\<close>, and so for the tracked pointer 1. In the empty default table the count wraps
  from 0 to \<open>2 ^ 32 - 1\<close>, the test holds by wrap-around (\<open>2 ^ 32 - 1 + 64\<close> is 63 in
  \<^verbatim>\<open>size_t\<close>), the resize to 0 entries passes the inverted assertion, and the call is
  fatal when \<^verbatim>\<open>realloc\<close> answers the request for zero bytes with a null pointer.
\<close>

theorem Free_is_fatal_when_shrink_is_requested:
  "Free config_128 None 0xDEAD table_128 = Some (Inl AssertResizeEntryCount) \<and>
   Free config_128 None 1 table_128 = Some (Inl AssertResizeEntryCount) \<and>
   Free default_config None 0xDEAD empty_table = Some (Inl AssertTableReallocated)"
  by code_simp

subsection \<open>The report\<close>

text \<open>
  The printing loop emits the calls of \<open>print_allocation\<close> for each valid descriptor it
  visits, in order, and ends in an out-of-bounds read exactly when its bound exceeds
  the length of the copy.
\<close>

lemma PrintStats_loop_output:
  "PrintStats_loop cfg c n index out =
     (out @ concat (map (print_allocation cfg)
                      (filter TAGGED_ALLOC_IS_VALID (drop index (take n c)))),
      if max index (length c) < n then Some OutOfBoundsAccess else None)"
proof (induction cfg c n index out rule: PrintStats_loop.induct)
  case (1 cfg c n index out)
  show ?case
  proof (cases "index < n")
    case False
    then show ?thesis by (subst PrintStats_loop.simps) simp
  next
    case inb: True
    show ?thesis
    proof (cases "index < length c")
      case False
      with inb show ?thesis by (subst PrintStats_loop.simps) simp
    next
      case len: True
      from inb len have cons: "drop index (take n c) = c ! index # drop (Suc index) (take n c)"
        by (simp add: Cons_nth_drop_Suc[symmetric])
      from inb len have mx: "(max (Suc index) (length c) < n) = (max index (length c) < n)"
        by auto
      show ?thesis
      proof (cases "TAGGED_ALLOC_IS_VALID (c ! index)")
        case True
        from "1.IH"(1)[OF inb len refl True] inb len True cons mx show ?thesis
          by (subst PrintStats_loop.simps) (simp add: Let_def)
      next
        case False
        from "1.IH"(2)[OF inb len refl False] inb len False cons mx show ?thesis
          by (subst PrintStats_loop.simps) (simp add: Let_def)
      qed
    qed
  qed
qed

lemma sizeof_TaggedAllocationDescriptor_pos:
  "0 < unat (sizeof_TaggedAllocationDescriptor cfg)"
  by (simp add: sizeof_TaggedAllocationDescriptor_def)

text \<open>
  C9 as stated: \<^verbatim>\<open>PrintStats\<close> emits a line for each live record and only for live records,
  and the time on a line is the time elapsed since the record's creation. Both fail.
  The bound of the printing loop is the size of the table in bytes, so on the default
  table with two records (64 entries, 1024 bytes) the loop goes on to read entry 64 of
  a copy that has 64 entries. And the line shows the \<open>Time\<close> field divided by 1000, the
  moment of the allocation, which the elapsed time of the specification is not: for a
  record created at 5000 ms and a dump at 7000 ms the line shows 5, not 2.
\<close>

theorem PrintStats_reports_valid_records_counterexample:
  "snd (PrintStats default_config True two_records_table) = Some OutOfBoundsAccess \<and>
   print_allocation default_config record_TAGA
     \<noteq> spec_report_line default_config 7000 record_TAGA"
proof
  have k: "sizeof_TaggedAllocationDescriptor default_config = 16"
    by (simp add: sizeof_TaggedAllocationDescriptor_def default_config_def)
  show "snd (PrintStats default_config True two_records_table) = Some OutOfBoundsAccess"
    by (simp add: PrintStats_def Let_def PrintStats_loop_output k buffer_entries_def
          two_records_table_def)
  show "print_allocation default_config record_TAGA
     \<noteq> spec_report_line default_config 7000 record_TAGA"
    by (simp add: print_allocation_def spec_report_line_def record_TAGA_def default_config_def)
qed


text \<open>
  C9 as amended. When the copy is allocated, the buffer holds exactly the table's
  slots and the size of the table in bytes fits \<^verbatim>\<open>size_t\<close>, \<^verbatim>\<open>PrintStats\<close> emits, after the
  summary and before its loop leaves the copy, the report line of each valid record of
  the table, in slot order, and nothing for an empty slot. A line holds the four raw
  tag bytes, the size in decimal, with time tracking the creation time stamp in
  milliseconds divided by 1000 (not the time elapsed since), and the pointer in
  hexadecimal. What the loop does beyond the copy is not part of the statement.
\<close>

theorem PrintStats_reports_valid_records:
  assumes "length (AllocationTable s) = unat (AllocationTableSize s)"
    and "unat (AllocationTableSize s) * unat (sizeof_TaggedAllocationDescriptor cfg) < 2 ^ 32"
  shows "fst (PrintStats cfg True s) =
     [Serial_println ''*** TAGGED ALLOCATION STATS ***'',
      Serial_println ''> Capturing allocation table...'',
      Serial_print ''Allocation count: '',
      Serial_println_size (AllocationCount s),
      Serial_print ''Table size: '',
      Serial_print_size (AllocationCount s),
      Serial_print '' ('',
      Serial_print_size (AllocationCount s * sizeof_TaggedAllocationDescriptor cfg),
      Serial_println '' bytes)'']
     @ concat (map (print_allocation cfg) (valid_records s)) \<and>
   print_allocation cfg \<lparr> Object = p, Size = n, Tag = (t0, t1, t2, t3), Time = t \<rparr> =
     [Serial_print ''Tag: '', Serial_write [t0, t1, t2, t3],
      Serial_print '', Size: '', Serial_print_size n] @
     (if TAGGED_ALLOC_NO_TIME_TRACKING cfg then []
      else [Serial_print '', Time: '', Serial_print_double (real (unat t) / 1000)]) @
     [Serial_print '', Pointer: 0x'', Serial_print_HEX p, Serial_println []]"
proof -
  let ?k = "sizeof_TaggedAllocationDescriptor cfg"
  let ?bytes = "AllocationTableSize s * ?k"
  have kpos: "0 < unat ?k" by (rule sizeof_TaggedAllocationDescriptor_pos)
  from assms(2) have ub: "unat ?bytes = unat (AllocationTableSize s) * unat ?k"
    by (simp add: unat_mult_lem[THEN iffD1])
  with kpos have entries: "buffer_entries cfg ?bytes = unat (AllocationTableSize s)"
    by (simp add: buffer_entries_def)
  from kpos have ge: "unat (AllocationTableSize s) \<le> unat (AllocationTableSize s) * unat ?k"
    by simp
  have nocopyerr: "\<not> (length (AllocationTable s) * unat ?k < unat ?bytes)"
    using assms(1) ub by simp
  have tk: "take (unat ?bytes) (take (buffer_entries cfg ?bytes) (AllocationTable s))
              = AllocationTable s"
    using assms(1) entries ub ge by simp
  have vr: "valid_records s = filter TAGGED_ALLOC_IS_VALID (AllocationTable s)"
    using assms(1) by (simp add: valid_records_def)
  have out: "fst (PrintStats cfg True s) =
     [Serial_println ''*** TAGGED ALLOCATION STATS ***'',
      Serial_println ''> Capturing allocation table...'',
      Serial_print ''Allocation count: '',
      Serial_println_size (AllocationCount s),
      Serial_print ''Table size: '',
      Serial_print_size (AllocationCount s),
      Serial_print '' ('',
      Serial_print_size (AllocationCount s * sizeof_TaggedAllocationDescriptor cfg),
      Serial_println '' bytes)'']
     @ concat (map (print_allocation cfg) (valid_records s))"
    using nocopyerr tk vr
    by (simp add: PrintStats_def Let_def PrintStats_loop_output)
  have line: "print_allocation cfg \<lparr> Object = p, Size = n, Tag = (t0, t1, t2, t3), Time = t \<rparr> =
     [Serial_print ''Tag: '', Serial_write [t0, t1, t2, t3],
      Serial_print '', Size: '', Serial_print_size n] @
     (if TAGGED_ALLOC_NO_TIME_TRACKING cfg then []
      else [Serial_print '', Time: '', Serial_print_double (real (unat t) / 1000)]) @
     [Serial_print '', Pointer: 0x'', Serial_print_HEX p, Serial_println []]"
    by (simp add: print_allocation_def)
  from out line show ?thesis by (rule conjI)
qed


theorem PrintStats_reports_valid_records_witness:
  "length (AllocationTable two_records_table) = unat (AllocationTableSize two_records_table) \<and>
   unat (AllocationTableSize two_records_table)
     * unat (sizeof_TaggedAllocationDescriptor default_config) < 2 ^ 32 \<and>
   fst (PrintStats default_config True two_records_table) =
     [Serial_println ''*** TAGGED ALLOCATION STATS ***'',
      Serial_println ''> Capturing allocation table...'',
      Serial_print ''Allocation count: '',
      Serial_println_size 2,
      Serial_print ''Table size: '',
      Serial_print_size 2,
      Serial_print '' ('',
      Serial_print_size 32,
      Serial_println '' bytes)'',
      Serial_print ''Tag: '', Serial_write ''TAGA'',
      Serial_print '', Size: '', Serial_print_size 16,
      Serial_print '', Time: '', Serial_print_double 5,
      Serial_print '', Pointer: 0x'', Serial_print_HEX 0x3FFB1000, Serial_println [],
      Serial_print ''Tag: '', Serial_write ''TAGB'',
      Serial_print '', Size: '', Serial_print_size 32,
      Serial_print '', Time: '', Serial_print_double (5001 / 1000),
      Serial_print '', Pointer: 0x'', Serial_print_HEX 0x3FFB2000, Serial_println []]"
proof -
  have h1: "length (AllocationTable two_records_table)
              = unat (AllocationTableSize two_records_table)"
    by (simp add: two_records_table_def)
  have h2: "unat (AllocationTableSize two_records_table)
     * unat (sizeof_TaggedAllocationDescriptor default_config) < 2 ^ 32"
    by (simp add: two_records_table_def sizeof_TaggedAllocationDescriptor_def default_config_def)
  have c: "AllocationCount two_records_table = 2"
    by (simp add: two_records_table_def)
  have k: "sizeof_TaggedAllocationDescriptor default_config = 16"
    by (simp add: sizeof_TaggedAllocationDescriptor_def default_config_def)
  have t: "\<not> TAGGED_ALLOC_NO_TIME_TRACKING default_config"
    by (simp add: default_config_def)
  from PrintStats_reports_valid_records[OF h1 h2] have "fst (PrintStats default_config True two_records_table) =
     [Serial_println ''*** TAGGED ALLOCATION STATS ***'',
      Serial_println ''> Capturing allocation table...'',
      Serial_print ''Allocation count: '',
      Serial_println_size (AllocationCount two_records_table),
      Serial_print ''Table size: '',
      Serial_print_size (AllocationCount two_records_table),
      Serial_print '' ('',
      Serial_print_size (AllocationCount two_records_table
         * sizeof_TaggedAllocationDescriptor default_config),
      Serial_println '' bytes)'']
     @ concat (map (print_allocation default_config) (valid_records two_records_table))"
    by (rule conjunct1)
  with h1 h2 show ?thesis
    by (simp add: two_records_valid c k t print_allocation_def record_TAGA_def record_TAGB_def)
qed


end
